theory Spec2Isabelle
  imports Main "HOL-Library.Word"
begin

section \<open>Name sanitizer\<close>

text \<open>
  A Go string is a sequence of bytes; \<open>string\<close> (a list of 8-bit characters) is used
  for it. The two regular expressions of the package work on the UTF-8 runes of their
  input, so the width of the rune at the head of a string is modelled as Go's
  \<open>utf8.DecodeRuneInString\<close> computes it: an ASCII byte is one rune, a well-formed
  multi-byte sequence is one rune of 2 to 4 bytes, and any other byte is the
  replacement rune of width 1.
\<close>

definition byte :: "char \<Rightarrow> nat" where
  "byte c = of_char c"

definition inRange :: "char \<Rightarrow> char \<Rightarrow> char \<Rightarrow> bool" where
  "inRange lo hi c = (byte lo \<le> byte c \<and> byte c \<le> byte hi)"

text \<open>The character class \<open>[a-zA-Z0-9_:]\<close>, whose complement is \<open>invalidCharsRegex\<close>.\<close>

definition isNameChar :: "char \<Rightarrow> bool" where
  "isNameChar c =
     (inRange CHR ''a'' CHR ''z'' c \<or> inRange CHR ''A'' CHR ''Z'' c \<or>
      inRange CHR ''0'' CHR ''9'' c \<or> c = CHR ''_'' \<or> c = CHR '':'')"

text \<open>The character class \<open>[a-zA-Z_]\<close>, whose complement follows \<open>^\<close> in
  \<open>startsWithInvalidRegex\<close>.\<close>

definition isStartChar :: "char \<Rightarrow> bool" where
  "isStartChar c =
     (inRange CHR ''a'' CHR ''z'' c \<or> inRange CHR ''A'' CHR ''Z'' c \<or> c = CHR ''_'')"

text \<open>
  The lead byte table of Go's \<open>unicode/utf8\<close>: the length of the sequence a lead byte
  announces and the range its second byte must lie in; \<open>None\<close> for a byte that starts
  no sequence.
\<close>

definition leadByte :: "nat \<Rightarrow> (nat \<times> nat \<times> nat) option" where
  "leadByte b =
     (if 0xC2 \<le> b \<and> b \<le> 0xDF then Some (2, 0x80, 0xBF)
      else if b = 0xE0 then Some (3, 0xA0, 0xBF)
      else if 0xE1 \<le> b \<and> b \<le> 0xEC then Some (3, 0x80, 0xBF)
      else if b = 0xED then Some (3, 0x80, 0x9F)
      else if 0xEE \<le> b \<and> b \<le> 0xEF then Some (3, 0x80, 0xBF)
      else if b = 0xF0 then Some (4, 0x90, 0xBF)
      else if 0xF1 \<le> b \<and> b \<le> 0xF3 then Some (4, 0x80, 0xBF)
      else if b = 0xF4 then Some (4, 0x80, 0x8F)
      else None)"

definition isContinuation :: "nat \<Rightarrow> bool" where
  "isContinuation b = (0x80 \<le> b \<and> b \<le> 0xBF)"

definition runeWidth :: "string \<Rightarrow> nat" where
  "runeWidth s =
     (case s of
        [] \<Rightarrow> 0
      | c # cs \<Rightarrow>
          if byte c < 0x80 then 1
          else (case leadByte (byte c) of
                  None \<Rightarrow> 1
                | Some (sz, lo, hi) \<Rightarrow>
                    if length s < sz then 1
                    else if \<not> (lo \<le> byte (s ! 1) \<and> byte (s ! 1) \<le> hi) then 1
                    else if sz \<le> 2 then 2
                    else if \<not> isContinuation (byte (s ! 2)) then 1
                    else if sz \<le> 3 then 3
                    else if \<not> isContinuation (byte (s ! 3)) then 1
                    else 4))"

text \<open>\<open>strings.ReplaceAll(name, ".", "_")\<close>: every byte \<open>.\<close> becomes \<open>_\<close>.\<close>

definition replaceDots :: "string \<Rightarrow> string" where
  "replaceDots name = map (\<lambda>c. if c = CHR ''.'' then CHR ''_'' else c) name"

text \<open>
  \<open>invalidCharsRegex.ReplaceAllString(name, "_")\<close>: the expression matches one rune
  outside the class, so each such rune, whatever its width in bytes, is replaced by one
  underscore, and every other byte is copied.
\<close>

fun replaceInvalidChars :: "string \<Rightarrow> string" where
  "replaceInvalidChars [] = []"
| "replaceInvalidChars (c # cs) =
     (if isNameChar c then c # replaceInvalidChars cs
      else CHR ''_'' # replaceInvalidChars (drop (runeWidth (c # cs) - 1) cs))"

text \<open>\<open>startsWithInvalidRegex.MatchString(name)\<close>: there is a first rune and it is
  outside \<open>[a-zA-Z_]\<close>.\<close>

definition startsWithInvalid :: "string \<Rightarrow> bool" where
  "startsWithInvalid name = (case name of [] \<Rightarrow> False | c # cs \<Rightarrow> \<not> isStartChar c)"

definition sanitizeName :: "string \<Rightarrow> string" where
  "sanitizeName name =
     (let name1 = replaceDots name;
          name2 = replaceInvalidChars name1
      in if startsWithInvalid name2 then CHR ''_'' # name2 else name2)"

text \<open>The identifier grammar of the backend, \<open>^[A-Za-z_][A-Za-z0-9_:]*$\<close>.\<close>

definition matchesIdentifier :: "string \<Rightarrow> bool" where
  "matchesIdentifier s =
     (case s of [] \<Rightarrow> False | c # cs \<Rightarrow> isStartChar c \<and> list_all isNameChar cs)"

section \<open>Metric store\<close>

text \<open>
  Objects that the program shares by pointer live in a heap indexed by addresses, and
  every allocation takes the next free address. The locks of the store (\<open>mu\<close>,
  \<open>mapLock\<close>) order concurrent callers and have no effect on a single call, so the
  operations are modelled as one caller runs them.
\<close>

type_synonym addr = nat

text \<open>Go's \<open>int\<close> on a 64-bit platform; \<open>sint\<close> reads its value.\<close>

type_synonym go_int = "64 word"

text \<open>
  Values of type \<open>float64\<close> are kept as the expressions that compute them: the
  conversion of an integer, a decimal literal (mantissa and exponent of ten) and a
  quotient. Their rounding is left to the platform.
\<close>

datatype float64 =
    Float64_of_int int
  | Float64_lit int int
  | Float64_quo float64 float64

datatype kind = CounterKind | GaugeKind | HistogramKind

record Opts =
  Namespace :: string
  Subsystem :: string
  Name :: string
  Help :: string

text \<open>A metric object, by the constructor of the client library that built it.\<close>

datatype collector =
    NewCounter Opts
  | NewGauge Opts
  | NewHistogram Opts "float64 list"

datatype error =
    AlreadyRegisteredError addr addr
  | ErrServerClosed
  | ErrorString string

datatype attr = AttrS string string | AttrI string int

datatype level = LevelInfo | LevelError | LevelFatal

datatype message = Text string | Failure error

datatype log_entry = Entry level "attr list" message

text \<open>A call made on a metric handle: \<open>Add\<close>, \<open>Set\<close> or \<open>Observe\<close>.\<close>

datatype call = Add addr float64 | Set addr float64 | Observe addr float64

record Prometheus =
  prefix :: string
  namespace :: string
  subsystem :: string
  registry :: addr
  counters :: "string \<rightharpoonup> addr"
  gauges :: "string \<rightharpoonup> addr"
  histograms :: "string \<rightharpoonup> addr"
  buckets :: "float64 list"
  prefixes :: "string \<rightharpoonup> addr option"

text \<open>
  The client library is a parameter of the model. \<open>Register\<close> is
  \<open>Registry.Register\<close>: from the state of a registry, the address of a collector and
  the collector itself it gives the error (or none) and the registry's new state.
  \<open>Implements k c\<close> says whether the collector at address \<open>c\<close> passes the type
  assertion to the interface of kind \<open>k\<close> (\<open>prometheus.Counter\<close>,
  \<open>prometheus.Gauge\<close>, \<open>prometheus.Histogram\<close>).
\<close>

record 'r client =
  Register :: "'r \<Rightarrow> addr \<Rightarrow> collector \<Rightarrow> error option \<times> 'r"
  Implements :: "kind \<Rightarrow> addr \<Rightarrow> bool"

text \<open>
  The exposition server. \<open>Addr\<close> keeps the port of the address \<open>":%d"\<close>, and the
  timeouts are in seconds. A multiplexer is the list of its patterns with their
  handlers. \<open>stopChan\<close> is \<open>True\<close> once the channel is closed, \<open>wg\<close> is the counter of
  the wait group.
\<close>

datatype handler = MetricsHandler addr | HealthHandler

type_synonym mux = "(string \<times> handler) list"

record http_Server =
  Addr :: int
  Handler :: mux
  ReadTimeout :: nat
  WriteTimeout :: nat
  IdleTimeout :: nat
  inShutdown :: bool

record server =
  httpServer :: "http_Server option"
  port :: int
  path :: string
  serverRegistry :: addr
  stopChan :: bool
  wg :: nat

text \<open>
  The goroutine that \<open>start\<close> launches is \<open>Spawned\<close> until the scheduler runs it,
  \<open>Serving\<close> while \<open>ListenAndServe\<close> holds the listener, and \<open>Finished\<close> once
  \<open>ListenAndServe\<close> has returned.
\<close>

datatype phase = Spawned | Serving | Finished

text \<open>
  The world: the heaps of stores, metric objects and servers with the next free
  address, the state of each registry, the calls made on metric handles, the log, the
  package variable \<open>currentServer\<close>, the goroutines, and the operating system as
  far as the server meets it: \<open>listenError\<close> gives, for a port, the error a listen on
  it fails with now (in use, no permission), and \<open>busy\<close> holds the servers whose
  connections do not drain within the grace period of a shutdown.
\<close>

record 'r world =
  stores :: "addr \<rightharpoonup> Prometheus"
  collectors :: "addr \<rightharpoonup> collector"
  servers :: "addr \<rightharpoonup> server"
  nextAddr :: addr
  registries :: "addr \<Rightarrow> 'r"
  backend :: "call list"
  logs :: "log_entry list"
  currentServer :: "addr option"
  goroutines :: "addr \<rightharpoonup> phase"
  listenError :: "int \<rightharpoonup> error"
  busy :: "addr set"

definition newPrometheus ::
  "string \<Rightarrow> string \<Rightarrow> string \<Rightarrow> addr \<Rightarrow> float64 list \<Rightarrow> Prometheus" where
  "newPrometheus pfx ns sub reg bs =
     \<lparr>prefix = pfx, namespace = ns, subsystem = sub, registry = reg,
      counters = Map.empty, gauges = Map.empty, histograms = Map.empty,
      buckets = bs, prefixes = Map.empty\<rparr>"

definition buildMetricName :: "Prometheus \<Rightarrow> string \<Rightarrow> string" where
  "buildMetricName p name =
     (let sanitized = sanitizeName name
      in if prefix p \<noteq> '''' then sanitizeName (prefix p) @ sanitized else sanitized)"

text \<open>\<open>logger()\<close> tags every entry with the library's name.\<close>

definition logger :: "attr list" where
  "logger = [AttrS ''lib'' ''svckit.metric.prometheus'']"

definition logError :: "attr list \<Rightarrow> error \<Rightarrow> 'r world \<Rightarrow> 'r world" where
  "logError attrs err w = w\<lparr>logs := logs w @ [Entry LevelError attrs (Failure err)]\<rparr>"

text \<open>Allocation of a metric object built by one of the library's constructors.\<close>

definition allocCollector :: "collector \<Rightarrow> 'r world \<Rightarrow> addr \<times> 'r world" where
  "allocCollector c w =
     (nextAddr w, w\<lparr>collectors := (collectors w)(nextAddr w \<mapsto> c), nextAddr := nextAddr w + 1\<rparr>)"

text \<open>\<open>p.registry.Register(c)\<close> on the registry the store points to.\<close>

definition registryRegister ::
  "'r client \<Rightarrow> addr \<Rightarrow> addr \<Rightarrow> collector \<Rightarrow> 'r world \<Rightarrow> error option \<times> 'r world" where
  "registryRegister lib reg c obj w =
     (case Register lib (registries w reg) c obj of
        (err, r') \<Rightarrow> (err, w\<lparr>registries := (registries w)(reg := r')\<rparr>))"

definition counterOpts :: "Prometheus \<Rightarrow> string \<Rightarrow> Opts" where
  "counterOpts p metricName =
     \<lparr>Namespace = namespace p, Subsystem = subsystem p, Name = metricName,
      Help = ''Counter metric: '' @ metricName\<rparr>"

definition gaugeOpts :: "Prometheus \<Rightarrow> string \<Rightarrow> Opts" where
  "gaugeOpts p metricName =
     \<lparr>Namespace = namespace p, Subsystem = subsystem p, Name = metricName,
      Help = ''Gauge metric: '' @ metricName\<rparr>"

definition histogramOpts :: "Prometheus \<Rightarrow> string \<Rightarrow> Opts" where
  "histogramOpts p metricName =
     \<lparr>Namespace = namespace p, Subsystem = subsystem p, Name = metricName,
      Help = ''Histogram metric: '' @ metricName\<rparr>"

text \<open>
  The three getOrCreate functions. A store that is not in the heap gives \<open>None\<close>.
  The lookup under the read lock and the one repeated under the write lock read the
  same map in a single call; both are kept.
\<close>

definition getOrCreateCounter ::
  "'r client \<Rightarrow> addr \<Rightarrow> string \<Rightarrow> 'r world \<Rightarrow> (addr \<times> 'r world) option" where
  "getOrCreateCounter lib p name w =
     (case stores w p of
        None \<Rightarrow> None
      | Some P \<Rightarrow>
          (case counters P name of
             Some counter \<Rightarrow> Some (counter, w)
           | None \<Rightarrow>
               (case counters P name of
                  Some counter \<Rightarrow> Some (counter, w)
                | None \<Rightarrow>
                    (let metricName = buildMetricName P name;
                         obj = NewCounter (counterOpts P metricName);
                         (counter, w1) = allocCollector obj w;
                         (err, w2) = registryRegister lib (registry P) counter obj w1
                     in case err of
                          Some e \<Rightarrow>
                            (case e of
                               AlreadyRegisteredError existingCounter new \<Rightarrow>
                                 if Implements lib CounterKind existingCounter
                                 then Some (existingCounter,
                                   w2\<lparr>stores := (stores w2)(p \<mapsto>
                                     P\<lparr>counters := (counters P)(name \<mapsto> existingCounter)\<rparr>)\<rparr>)
                                 else Some (counter,
                                   logError (logger @ [AttrS ''name'' metricName]) e w2)
                             | _ \<Rightarrow> Some (counter,
                                   logError (logger @ [AttrS ''name'' metricName]) e w2))
                        | None \<Rightarrow>
                            Some (counter,
                              w2\<lparr>stores := (stores w2)(p \<mapsto>
                                P\<lparr>counters := (counters P)(name \<mapsto> counter)\<rparr>)\<rparr>)))))"

definition getOrCreateGauge ::
  "'r client \<Rightarrow> addr \<Rightarrow> string \<Rightarrow> 'r world \<Rightarrow> (addr \<times> 'r world) option" where
  "getOrCreateGauge lib p name w =
     (case stores w p of
        None \<Rightarrow> None
      | Some P \<Rightarrow>
          (case gauges P name of
             Some gauge \<Rightarrow> Some (gauge, w)
           | None \<Rightarrow>
               (case gauges P name of
                  Some gauge \<Rightarrow> Some (gauge, w)
                | None \<Rightarrow>
                    (let metricName = buildMetricName P name;
                         obj = NewGauge (gaugeOpts P metricName);
                         (gauge, w1) = allocCollector obj w;
                         (err, w2) = registryRegister lib (registry P) gauge obj w1
                     in case err of
                          Some e \<Rightarrow>
                            (case e of
                               AlreadyRegisteredError existingGauge new \<Rightarrow>
                                 if Implements lib GaugeKind existingGauge
                                 then Some (existingGauge,
                                   w2\<lparr>stores := (stores w2)(p \<mapsto>
                                     P\<lparr>gauges := (gauges P)(name \<mapsto> existingGauge)\<rparr>)\<rparr>)
                                 else Some (gauge,
                                   logError (logger @ [AttrS ''name'' metricName]) e w2)
                             | _ \<Rightarrow> Some (gauge,
                                   logError (logger @ [AttrS ''name'' metricName]) e w2))
                        | None \<Rightarrow>
                            Some (gauge,
                              w2\<lparr>stores := (stores w2)(p \<mapsto>
                                P\<lparr>gauges := (gauges P)(name \<mapsto> gauge)\<rparr>)\<rparr>)))))"

definition getOrCreateHistogram ::
  "'r client \<Rightarrow> addr \<Rightarrow> string \<Rightarrow> 'r world \<Rightarrow> (addr \<times> 'r world) option" where
  "getOrCreateHistogram lib p name w =
     (case stores w p of
        None \<Rightarrow> None
      | Some P \<Rightarrow>
          (case histograms P name of
             Some histogram \<Rightarrow> Some (histogram, w)
           | None \<Rightarrow>
               (case histograms P name of
                  Some histogram \<Rightarrow> Some (histogram, w)
                | None \<Rightarrow>
                    (let metricName = buildMetricName P name;
                         obj = NewHistogram (histogramOpts P metricName) (buckets P);
                         (histogram, w1) = allocCollector obj w;
                         (err, w2) = registryRegister lib (registry P) histogram obj w1
                     in case err of
                          Some e \<Rightarrow>
                            (case e of
                               AlreadyRegisteredError existingHistogram new \<Rightarrow>
                                 if Implements lib HistogramKind existingHistogram
                                 then Some (existingHistogram,
                                   w2\<lparr>stores := (stores w2)(p \<mapsto>
                                     P\<lparr>histograms :=
                                       (histograms P)(name \<mapsto> existingHistogram)\<rparr>)\<rparr>)
                                 else Some (histogram,
                                   logError (logger @ [AttrS ''name'' metricName]) e w2)
                             | _ \<Rightarrow> Some (histogram,
                                   logError (logger @ [AttrS ''name'' metricName]) e w2))
                        | None \<Rightarrow>
                            Some (histogram,
                              w2\<lparr>stores := (stores w2)(p \<mapsto>
                                P\<lparr>histograms := (histograms P)(name \<mapsto> histogram)\<rparr>)\<rparr>)))))"

text \<open>
  The three functions differ in the kind only: \<open>getOrCreate k\<close> is the one for the
  kind \<open>k\<close>, \<open>handles k\<close> the map it caches in, and \<open>newCollector k\<close> the object it
  builds for a name.
\<close>

definition getOrCreate ::
  "kind \<Rightarrow> 'r client \<Rightarrow> addr \<Rightarrow> string \<Rightarrow> 'r world \<Rightarrow> (addr \<times> 'r world) option" where
  "getOrCreate k =
     (case k of
        CounterKind \<Rightarrow> getOrCreateCounter
      | GaugeKind \<Rightarrow> getOrCreateGauge
      | HistogramKind \<Rightarrow> getOrCreateHistogram)"

definition handles :: "kind \<Rightarrow> Prometheus \<Rightarrow> (string \<rightharpoonup> addr)" where
  "handles k = (case k of CounterKind \<Rightarrow> counters | GaugeKind \<Rightarrow> gauges | HistogramKind \<Rightarrow> histograms)"

definition newCollector :: "kind \<Rightarrow> Prometheus \<Rightarrow> string \<Rightarrow> collector" where
  "newCollector k P name =
     (case k of
        CounterKind \<Rightarrow> NewCounter (counterOpts P (buildMetricName P name))
      | GaugeKind \<Rightarrow> NewGauge (gaugeOpts P (buildMetricName P name))
      | HistogramKind \<Rightarrow> NewHistogram (histogramOpts P (buildMetricName P name)) (buckets P))"

text \<open>
  \<open>Counter\<close>, \<open>Gauge\<close> and \<open>Time\<close>. Each ends in one call on the handle, which is
  appended to the record of calls made on the backend. The sum of \<open>Counter\<close> is
  computed in Go's \<open>int\<close>. \<open>Timing\<close>, which reads the clock around a function and
  passes the difference to \<open>Time\<close>, is left out.
\<close>

definition Counter ::
  "'r client \<Rightarrow> addr \<Rightarrow> string \<Rightarrow> go_int list \<Rightarrow> 'r world \<Rightarrow> 'r world option" where
  "Counter lib p name vals w =
     (let val = (if length vals > 0 then fold (\<lambda>v acc. acc + v) vals 0 else 1)
      in case getOrCreateCounter lib p name w of
           None \<Rightarrow> None
         | Some (counter, w') \<Rightarrow>
             Some (w'\<lparr>backend := backend w' @ [Add counter (Float64_of_int (sint val))]\<rparr>))"

definition Gauge ::
  "'r client \<Rightarrow> addr \<Rightarrow> string \<Rightarrow> go_int \<Rightarrow> 'r world \<Rightarrow> 'r world option" where
  "Gauge lib p name val w =
     (case getOrCreateGauge lib p name w of
        None \<Rightarrow> None
      | Some (gauge, w') \<Rightarrow>
          Some (w'\<lparr>backend := backend w' @ [Set gauge (Float64_of_int (sint val))]\<rparr>))"


section \<open>Prefix tree\<close>

definition HasSuffix :: "string \<Rightarrow> string \<Rightarrow> bool" where
  "HasSuffix s suffix =
     (length suffix \<le> length s \<and> drop (length s - length suffix) s = suffix)"

text \<open>
  \<open>WithPrefix\<close> returns the address of the derived store. A cached entry is used when
  the key is present and its pointer is not nil (\<open>Some (Some s)\<close>).
\<close>

definition WithPrefix :: "addr \<Rightarrow> string \<Rightarrow> 'r world \<Rightarrow> (addr \<times> 'r world) option" where
  "WithPrefix p pfx w =
     (case stores w p of
        None \<Rightarrow> None
      | Some P \<Rightarrow>
          (case prefixes P pfx of
             Some (Some s) \<Rightarrow> Some (s, w)
           | _ \<Rightarrow>
               (let mPrefix = (if \<not> HasSuffix pfx ''.'' then pfx @ ''.'' else pfx);
                    s = nextAddr w;
                    w1 = w\<lparr>stores := (stores w)(s \<mapsto>
                             newPrometheus mPrefix (namespace P) (subsystem P) (registry P) (buckets P)),
                           nextAddr := nextAddr w + 1\<rparr>;
                    w2 = w1\<lparr>stores := (stores w1)(p \<mapsto> P\<lparr>prefixes := (prefixes P)(pfx \<mapsto> Some s)\<rparr>)\<rparr>
                in case stores w2 p of
                     None \<Rightarrow> None
                   | Some P' \<Rightarrow> (case prefixes P' pfx of Some (Some s') \<Rightarrow> Some (s', w2) | _ \<Rightarrow> None))))"

definition AppendSuffix :: "addr \<Rightarrow> string \<Rightarrow> 'r world \<Rightarrow> (addr \<times> 'r world) option" where
  "AppendSuffix p suffix w =
     (case stores w p of
        None \<Rightarrow> None
      | Some P \<Rightarrow> WithPrefix p (prefix P @ suffix) w)"

text \<open>
  The prefix a derived store gets, and what ties a derived store \<open>S\<close> to its parent
  \<open>P\<close> and the key \<open>q\<close> it was requested with: the normalized prefix, and the
  parent's namespace, subsystem, registry and buckets.
\<close>

definition normalizePrefix :: "string \<Rightarrow> string" where
  "normalizePrefix pfx = (if \<not> HasSuffix pfx ''.'' then pfx @ ''.'' else pfx)"

definition derivedFrom :: "Prometheus \<Rightarrow> string \<Rightarrow> Prometheus \<Rightarrow> bool" where
  "derivedFrom P q S =
     (prefix S = normalizePrefix q \<and> namespace S = namespace P \<and>
      subsystem S = subsystem P \<and> registry S = registry P \<and> buckets S = buckets P)"

text \<open>Two stores that agree on the fields fixed at creation.\<close>

definition sameShape :: "Prometheus \<Rightarrow> Prometheus \<Rightarrow> bool" where
  "sameShape A B =
     (prefix A = prefix B \<and> namespace A = namespace B \<and> subsystem A = subsystem B \<and>
      registry A = registry B \<and> buckets A = buckets B)"

text \<open>
  What every reachable world satisfies: the heap holds nothing at or beyond the next
  free address, and within one store every cached prefix points to a store of the heap
  that is derived from it for that key, two different keys never to the same store.
\<close>

definition prefixesOk :: "'r world \<Rightarrow> Prometheus \<Rightarrow> bool" where
  "prefixesOk w P =
     ((\<forall>q s. prefixes P q = Some (Some s) \<longrightarrow>
         s < nextAddr w \<and> (\<exists>S. stores w s = Some S \<and> derivedFrom P q S)) \<and>
      (\<forall>q q' s. prefixes P q = Some (Some s) \<and> prefixes P q' = Some (Some s) \<longrightarrow> q = q'))"

definition wellFormed :: "'r world \<Rightarrow> bool" where
  "wellFormed w =
     (\<forall>p P. stores w p = Some P \<longrightarrow> p < nextAddr w \<and> prefixesOk w P)"

section \<open>Exposition server\<close>

text \<open>
  A call either returns or panics. The lock \<open>serverMu\<close> orders concurrent callers of
  \<open>startServer\<close> and \<open>stopServer\<close>; one call is modelled as it runs alone.
\<close>

datatype 'a result = Return 'a | Panic string

definition newServer :: "int \<Rightarrow> string \<Rightarrow> addr \<Rightarrow> server" where
  "newServer prt pth reg =
     \<lparr>httpServer = None, port = prt, path = pth, serverRegistry = reg,
      stopChan = False, wg = 0\<rparr>"

text \<open>
  \<open>ServeMux.Handle\<close> panics on a pattern it does not accept (malformed, or in conflict
  with one registered before). Which patterns it accepts is the library's matter:
  \<open>accepts m pattern\<close> is a parameter.
\<close>

definition muxHandle :: "(mux \<Rightarrow> string \<Rightarrow> bool) \<Rightarrow> mux \<Rightarrow> string \<Rightarrow> handler \<Rightarrow> mux result" where
  "muxHandle accepts m pattern h =
     (if accepts m pattern then Return (m @ [(pattern, h)])
      else Panic ''http: invalid or conflicting pattern'')"

definition logInfo :: "attr list \<Rightarrow> string \<Rightarrow> 'r world \<Rightarrow> 'r world" where
  "logInfo attrs msg w = w\<lparr>logs := logs w @ [Entry LevelInfo attrs (Text msg)]\<rparr>"

text \<open>
  \<open>start\<close> builds the multiplexer and the \<open>http.Server\<close>, adds one to the wait group,
  launches the goroutine and returns nil. It does not listen: the listener is bound by
  \<open>ListenAndServe\<close>, inside the goroutine.
\<close>

definition start ::
  "(mux \<Rightarrow> string \<Rightarrow> bool) \<Rightarrow> addr \<Rightarrow> 'r world \<Rightarrow> (error option \<times> 'r world) result" where
  "start accepts s w =
     (case servers w s of
        None \<Rightarrow> Panic ''invalid memory address or nil pointer dereference''
      | Some S \<Rightarrow>
          (case muxHandle accepts [] (path S) (MetricsHandler (serverRegistry S)) of
             Panic m \<Rightarrow> Panic m
           | Return mux1 \<Rightarrow>
               (case muxHandle accepts mux1 ''/health'' HealthHandler of
                  Panic m \<Rightarrow> Panic m
                | Return mux2 \<Rightarrow>
                    (let S' = S\<lparr>httpServer := Some
                                 \<lparr>Addr = port S, Handler = mux2, ReadTimeout = 5,
                                  WriteTimeout = 10, IdleTimeout = 15, inShutdown = False\<rparr>,
                               wg := wg S + 1\<rparr>
                     in Return (None,
                          w\<lparr>servers := (servers w)(s \<mapsto> S'),
                            goroutines := (goroutines w)(s \<mapsto> Spawned)\<rparr>)))))"

text \<open>The end of the goroutine: \<open>wg.Done()\<close>.\<close>

definition goroutineDone :: "addr \<Rightarrow> 'r world \<Rightarrow> 'r world" where
  "goroutineDone s w =
     (case servers w s of
        None \<Rightarrow> w
      | Some S \<Rightarrow>
          w\<lparr>servers := (servers w)(s \<mapsto> S\<lparr>wg := wg S - 1\<rparr>),
            goroutines := (goroutines w)(s \<mapsto> Finished)\<rparr>)"

text \<open>
  The body of the goroutine, run by the scheduler some time after \<open>start\<close> has
  returned. It logs that the server starts and calls \<open>ListenAndServe\<close>. On a server
  already shut down that returns \<open>ErrServerClosed\<close>, which is not logged. When the
  listen fails, it returns the error, which is logged. Otherwise the port is bound (a
  further listen on it fails, except on port 0, for which the system picks a free port)
  and the goroutine stays in \<open>ListenAndServe\<close>.
\<close>

definition runGoroutine :: "addr \<Rightarrow> 'r world \<Rightarrow> 'r world" where
  "runGoroutine s w =
     (case (servers w s, goroutines w s) of
        (Some S, Some Spawned) \<Rightarrow>
          (let w1 = logInfo (logger @ [AttrI ''port'' (port S), AttrS ''path'' (path S)])
                      ''starting HTTP server'' w
           in case httpServer S of
                None \<Rightarrow> w1
              | Some H \<Rightarrow>
                  if inShutdown H then goroutineDone s w1
                  else (case listenError w1 (Addr H) of
                          Some err \<Rightarrow>
                            goroutineDone s
                              (if err \<noteq> ErrServerClosed
                               then logError (logger @ [AttrI ''port'' (port S)]) err w1
                               else w1)
                        | None \<Rightarrow>
                            w1\<lparr>goroutines := (goroutines w1)(s \<mapsto> Serving),
                               listenError :=
                                 (if Addr H = 0 then listenError w1
                                  else (listenError w1)(Addr H \<mapsto>
                                    ErrorString ''bind: address already in use''))\<rparr>))
      | _ \<Rightarrow> w)"

text \<open>
  \<open>http.Server.Shutdown\<close>: the server is marked as shut down; a listener it holds is
  closed, which frees the port and makes \<open>ListenAndServe\<close> return
  \<open>ErrServerClosed\<close>, so that the goroutine ends without a log entry. The result is the
  context's error when the connections do not drain within the grace period.
\<close>

definition Shutdown :: "addr \<Rightarrow> 'r world \<Rightarrow> error option \<times> 'r world" where
  "Shutdown s w =
     (case servers w s of
        None \<Rightarrow> (None, w)
      | Some S \<Rightarrow>
          (case httpServer S of
             None \<Rightarrow> (None, w)
           | Some H \<Rightarrow>
               (let w1 = w\<lparr>servers := (servers w)(s \<mapsto>
                              S\<lparr>httpServer := Some (H\<lparr>inShutdown := True\<rparr>)\<rparr>)\<rparr>;
                    w2 = (if goroutines w1 s = Some Serving
                          then goroutineDone s
                                 (w1\<lparr>listenError := (listenError w1)(Addr H := None)\<rparr>)
                          else w1)
                in (if s \<in> busy w2 then Some (ErrorString ''context deadline exceeded'') else None,
                    w2))))"

text \<open>
  \<open>wg.Wait()\<close> after a shutdown: a goroutine that has not run yet runs now (and ends
  at once, the server being shut down); then the counter is zero.
\<close>

definition wgWait :: "addr \<Rightarrow> 'r world \<Rightarrow> 'r world" where
  "wgWait s w = (if goroutines w s = Some Spawned then runGoroutine s w else w)"

definition stop :: "addr \<Rightarrow> 'r world \<Rightarrow> (error option \<times> 'r world) result" where
  "stop s w =
     (case servers w s of
        None \<Rightarrow> Panic ''invalid memory address or nil pointer dereference''
      | Some S \<Rightarrow>
          if stopChan S then Panic ''close of closed channel''
          else
            (let w1 = w\<lparr>servers := (servers w)(s \<mapsto> S\<lparr>stopChan := True\<rparr>)\<rparr>
             in case httpServer S of
                  None \<Rightarrow> Return (None, w1)
                | Some H \<Rightarrow>
                    (case Shutdown s w1 of
                       (Some err, w2) \<Rightarrow> Return (Some err, w2)
                     | (None, w2) \<Rightarrow> Return (None, wgWait s w2))))"

text \<open>
  \<open>startServer\<close> stops the current server, if there is one, without looking at the
  error of \<open>stop\<close>, makes a new server the current one and returns what \<open>start\<close>
  returns.
\<close>

definition startServer ::
  "(mux \<Rightarrow> string \<Rightarrow> bool) \<Rightarrow> int \<Rightarrow> string \<Rightarrow> addr \<Rightarrow> 'r world \<Rightarrow>
     (error option \<times> 'r world) result" where
  "startServer accepts prt pth reg w =
     (case (case currentServer w of
              None \<Rightarrow> Return (None, w)
            | Some cs \<Rightarrow> stop cs w) of
        Panic m \<Rightarrow> Panic m
      | Return (stopErr, w1) \<Rightarrow>
          (let s = nextAddr w1;
               w2 = w1\<lparr>servers := (servers w1)(s \<mapsto> newServer prt pth reg),
                       nextAddr := nextAddr w1 + 1,
                       currentServer := Some s\<rparr>
           in start accepts s w2))"

definition stopServer :: "'r world \<Rightarrow> (error option \<times> 'r world) result" where
  "stopServer w =
     (case currentServer w of
        None \<Rightarrow> Return (None, w)
      | Some cs \<Rightarrow>
          (case stop cs w of
             Panic m \<Rightarrow> Panic m
           | Return (err, w1) \<Rightarrow> Return (err, w1\<lparr>currentServer := None\<rparr>)))"

definition Close :: "'r world \<Rightarrow> (error option \<times> 'r world) result" where
  "Close w = stopServer w"

text \<open>
  What holds of the current server between calls: it is in the heap, below the next
  free address, and its channel is open (a server is stopped only when it is replaced
  or when \<open>currentServer\<close> is reset).
\<close>

definition currentOk :: "'r world \<Rightarrow> bool" where
  "currentOk w =
     (case currentServer w of
        None \<Rightarrow> True
      | Some cs \<Rightarrow> (case servers w cs of None \<Rightarrow> False | Some S \<Rightarrow> \<not> stopChan S))"

text \<open>A multiplexer that accepts every pattern not registered yet.\<close>

definition acceptsNew :: "mux \<Rightarrow> string \<Rightarrow> bool" where
  "acceptsNew m pattern = (pattern \<noteq> '''' \<and> pattern \<notin> set (map fst m))"

section \<open>Adoption, and a sample library and world\<close>

text \<open>
  An error of \<open>Register\<close> lets the store adopt a collector when it is an
  \<open>AlreadyRegisteredError\<close> whose existing collector passes the type assertion.
\<close>

definition adoptable :: "'r client \<Rightarrow> kind \<Rightarrow> error \<Rightarrow> bool" where
  "adoptable lib k e =
     (case e of AlreadyRegisteredError existing new \<Rightarrow> Implements lib k existing | _ \<Rightarrow> False)"

text \<open>The store \<open>P\<close> after the handle \<open>h\<close> is cached under a name in the map of a kind.\<close>

definition setHandle :: "kind \<Rightarrow> string \<Rightarrow> addr \<Rightarrow> Prometheus \<Rightarrow> Prometheus" where
  "setHandle k name h P =
     (case k of
        CounterKind \<Rightarrow> P\<lparr>counters := (counters P)(name \<mapsto> h)\<rparr>
      | GaugeKind \<Rightarrow> P\<lparr>gauges := (gauges P)(name \<mapsto> h)\<rparr>
      | HistogramKind \<Rightarrow> P\<lparr>histograms := (histograms P)(name \<mapsto> h)\<rparr>)"

text \<open>
  A library and a world to run the store on: every registration is refused because the
  collector at address 7, a counter, holds the name already; the world has one store,
  at address 0, with the prefix \<open>test.\<close>, no server yet, and port 2112 in use by
  another process.
\<close>

definition sampleClient :: "unit client" where
  "sampleClient =
     \<lparr>Register = (\<lambda>r c obj. (Some (AlreadyRegisteredError 7 c), r)),
      Implements = (\<lambda>k c. k = CounterKind \<and> c = 7)\<rparr>"

definition sampleWorld :: "unit world" where
  "sampleWorld =
     \<lparr>stores = [0 \<mapsto> newPrometheus ''test.'' '''' '''' 0 []],
      collectors = Map.empty, servers = Map.empty, nextAddr = 8,
      registries = (\<lambda>a. ()), backend = [], logs = [],
      currentServer = None, goroutines = Map.empty,
      listenError = [2112 \<mapsto> ErrorString ''listen tcp :2112: bind: address already in use''],
      busy = {}\<rparr>"

text \<open>
  The sample world after \<open>startServer\<close> on port 2112 with the path \<open>/metrics\<close> and the
  registry 0: the new server is at address 8 and its goroutine has not run yet.
\<close>

definition startedWorld :: "unit world" where
  "startedWorld =
     sampleWorld
       \<lparr>servers :=
          [8 \<mapsto> \<lparr>httpServer = Some
                    \<lparr>Addr = 2112,
                     Handler = [(''/metrics'', MetricsHandler 0), (''/health'', HealthHandler)],
                     ReadTimeout = 5, WriteTimeout = 10, IdleTimeout = 15,
                     inShutdown = False\<rparr>,
                  port = 2112, path = ''/metrics'', serverRegistry = 0,
                  stopChan = False, wg = 1\<rparr>],
        nextAddr := 9,
        currentServer := Some 8,
        goroutines := [8 \<mapsto> Spawned]\<rparr>"

text \<open>
  The type assertions of the three getOrCreate functions, as the client library
  (client_golang) decides them. An assertion to an interface succeeds when the dynamic
  type of the value has every method of the interface. \<open>interfaceMethods\<close> lists the
  methods of the interfaces \<open>prometheus.Counter\<close>, \<open>prometheus.Gauge\<close> and
  \<open>prometheus.Histogram\<close> (each embeds \<open>Metric\<close> and \<open>Collector\<close>), \<open>methodsOf\<close> those
  of the types that \<open>NewCounter\<close>, \<open>NewGauge\<close> and \<open>NewHistogram\<close> return. The
  methods of \<open>Counter\<close> are among those of a gauge.
\<close>

datatype meth =
    M_Desc | M_Write | M_Describe | M_Collect
  | M_Inc | M_Add | M_AddWithExemplar
  | M_Set | M_Dec | M_Sub | M_SetToCurrentTime
  | M_Observe | M_ObserveWithExemplar

definition interfaceMethods :: "kind \<Rightarrow> meth list" where
  "interfaceMethods k =
     (case k of
        CounterKind \<Rightarrow> [M_Desc, M_Write, M_Describe, M_Collect, M_Inc, M_Add]
      | GaugeKind \<Rightarrow>
          [M_Desc, M_Write, M_Describe, M_Collect,
           M_Set, M_Inc, M_Dec, M_Add, M_Sub, M_SetToCurrentTime]
      | HistogramKind \<Rightarrow> [M_Desc, M_Write, M_Describe, M_Collect, M_Observe])"

definition methodsOf :: "collector \<Rightarrow> meth list" where
  "methodsOf c =
     (case c of
        NewCounter opts \<Rightarrow>
          [M_Desc, M_Write, M_Describe, M_Collect, M_Inc, M_Add, M_AddWithExemplar]
      | NewGauge opts \<Rightarrow>
          [M_Desc, M_Write, M_Describe, M_Collect,
           M_Set, M_SetToCurrentTime, M_Inc, M_Dec, M_Add, M_Sub]
      | NewHistogram opts bs \<Rightarrow>
          [M_Desc, M_Write, M_Describe, M_Collect, M_Observe, M_ObserveWithExemplar])"

definition typeAssertion :: "(addr \<rightharpoonup> collector) \<Rightarrow> kind \<Rightarrow> addr \<Rightarrow> bool" where
  "typeAssertion heap k c =
     (case heap c of
        None \<Rightarrow> False
      | Some obj \<Rightarrow> list_all (\<lambda>m. m \<in> set (methodsOf obj)) (interfaceMethods k))"

text \<open>
  A world in which the application has registered a gauge, at address 7, under the
  name and help text that the store gives to its counter \<open>requests\<close>, and the library
  over that world: the registry answers the registration of a collector of that
  identity with \<open>AlreadyRegisteredError\<close> and the gauge, and type assertions are decided
  by the methods.
\<close>

definition gaugeWorld :: "unit world" where
  "gaugeWorld =
     sampleWorld
       \<lparr>collectors :=
          [7 \<mapsto> NewGauge \<lparr>Namespace = '''', Subsystem = '''', Name = ''test_requests'',
                           Help = ''Counter metric: test_requests''\<rparr>]\<rparr>"

definition gaugeClient :: "unit client" where
  "gaugeClient =
     \<lparr>Register = (\<lambda>r c obj. (Some (AlreadyRegisteredError 7 c), r)),
      Implements = typeAssertion (collectors gaugeWorld)\<rparr>"

section \<open>Options and Dial\<close>

text \<open>
  The options of \<open>Dial\<close>. A nil slice of buckets and a nil registry are \<open>None\<close>. An
  \<open>Option\<close> is a function on the options, as in the source; the names of the two
  option functions \<open>Namespace\<close> and \<open>Subsystem\<close> carry the suffix \<open>Option\<close> here.
\<close>

record options =
  o_prefix :: string
  o_port :: int
  o_path :: string
  o_namespace :: string
  o_subsystem :: string
  o_buckets :: "float64 list option"
  o_registry :: "addr option"

type_synonym Option = "options \<Rightarrow> options"

definition DefaultHTTPPort :: int where
  "DefaultHTTPPort = 2112"

definition DefaultMetricsPath :: string where
  "DefaultMetricsPath = ''/metrics''"

definition DefaultHistogramBuckets :: "float64 list" where
  "DefaultHistogramBuckets =
     [Float64_lit 1 (- 3), Float64_lit 5 (- 3), Float64_lit 1 (- 2), Float64_lit 5 (- 2),
      Float64_lit 1 (- 1), Float64_lit 5 (- 1), Float64_lit 1 0, Float64_lit 5 0,
      Float64_lit 10 0]"

definition staticPrometheusEnvVars :: "string list" where
  "staticPrometheusEnvVars = [''SVCKIT_METRIC_PROMETHEUS_PORT'', ''PROMETHEUS_PORT'']"

definition HTTPPort :: "int \<Rightarrow> Option" where
  "HTTPPort prt opt = opt\<lparr>o_port := prt\<rparr>"

definition MetricsPath :: "string \<Rightarrow> Option" where
  "MetricsPath pth opt = opt\<lparr>o_path := pth\<rparr>"

definition MetricPrefix :: "string \<Rightarrow> Option" where
  "MetricPrefix pfx opt = opt\<lparr>o_prefix := pfx\<rparr>"

definition NamespaceOption :: "string \<Rightarrow> Option" where
  "NamespaceOption ns opt = opt\<lparr>o_namespace := ns\<rparr>"

definition SubsystemOption :: "string \<Rightarrow> Option" where
  "SubsystemOption sub opt = opt\<lparr>o_subsystem := sub\<rparr>"

definition HistogramBuckets :: "float64 list option \<Rightarrow> Option" where
  "HistogramBuckets bs opt = opt\<lparr>o_buckets := bs\<rparr>"

definition WithRegistry :: "addr option \<Rightarrow> Option" where
  "WithRegistry reg opt = opt\<lparr>o_registry := reg\<rparr>"

text \<open>
  What \<open>Dial\<close> reads from outside the package: the application name and instance id
  and the development flag of the package \<open>svckit/env\<close>, the variables of the process
  environment, and the registry that \<open>NewRegistry\<close> of the client library returns.
\<close>

record 'r environment =
  AppName :: string
  InstanceId :: string
  Getenv :: "string \<Rightarrow> string"
  InDev :: bool
  NewRegistry :: 'r

text \<open>
  \<open>strconv.Atoi\<close>: an optional sign and one or more decimal digits, within the range
  of Go's \<open>int\<close>; anything else is an error.
\<close>

fun parseDigits :: "string \<Rightarrow> nat \<Rightarrow> nat option" where
  "parseDigits [] n = Some n"
| "parseDigits (c # cs) n =
     (if inRange CHR ''0'' CHR ''9'' c
      then parseDigits cs (n * 10 + (byte c - byte CHR ''0''))
      else None)"

definition Atoi :: "string \<Rightarrow> int option" where
  "Atoi s =
     (case s of
        [] \<Rightarrow> None
      | c # cs \<Rightarrow>
          (let neg = (c = CHR ''-'');
               ds = (if c = CHR ''-'' \<or> c = CHR ''+'' then cs else s)
           in if ds = [] then None
              else (case parseDigits ds 0 of
                      None \<Rightarrow> None
                    | Some n \<Rightarrow>
                        (let v = (if neg then - int n else int n)
                         in if - (2 ^ 63) \<le> v \<and> v < 2 ^ 63 then Some v else None))))"

text \<open>The loop of \<open>getPortFromEnv\<close> over the names of the variables.\<close>

fun portFromVars :: "(string \<Rightarrow> string) \<Rightarrow> string list \<Rightarrow> int" where
  "portFromVars getenv [] = 0"
| "portFromVars getenv (envVar # rest) =
     (let portStr = getenv envVar
      in if portStr \<noteq> ''''
         then (case Atoi portStr of
                 Some prt \<Rightarrow> if prt > 0 then prt else portFromVars getenv rest
               | None \<Rightarrow> portFromVars getenv rest)
         else portFromVars getenv rest)"

definition getPortFromEnv :: "'r environment \<Rightarrow> int" where
  "getPortFromEnv env = portFromVars (Getenv env) staticPrometheusEnvVars"

definition getDefaultPrefix :: "'r environment \<Rightarrow> string" where
  "getDefaultPrefix env =
     (if AppName env \<noteq> '''' \<and> InstanceId env \<noteq> ''''
      then AppName env @ ''.'' @ InstanceId env @ ''.''
      else if AppName env \<noteq> '''' then AppName env @ ''.''
      else '''')"

text \<open>
  \<open>Validate\<close> fills in the defaults, creating a registry when none is given, and
  returns nil; it has no other return.
\<close>

definition Validate ::
  "'r environment \<Rightarrow> options \<Rightarrow> 'r world \<Rightarrow> error option \<times> options \<times> 'r world" where
  "Validate env opt w =
     (let opt1 = (if o_port opt = 0
                  then (let opt' = opt\<lparr>o_port := getPortFromEnv env\<rparr>
                        in if o_port opt' = 0 then opt'\<lparr>o_port := DefaultHTTPPort\<rparr> else opt')
                  else opt);
          opt2 = (if o_path opt1 = '''' then opt1\<lparr>o_path := DefaultMetricsPath\<rparr> else opt1);
          opt3 = (if o_buckets opt2 = None
                  then opt2\<lparr>o_buckets := Some DefaultHistogramBuckets\<rparr> else opt2);
          (opt4, w1) =
            (if o_registry opt3 = None
             then (opt3\<lparr>o_registry := Some (nextAddr w)\<rparr>,
                   w\<lparr>registries := (registries w)(nextAddr w := NewRegistry env),
                     nextAddr := nextAddr w + 1\<rparr>)
             else (opt3, w));
          opt5 = (if o_prefix opt4 = '''' then opt4\<lparr>o_prefix := getDefaultPrefix env\<rparr>
                  else opt4)
      in (None, opt5, w1))"

text \<open>
  The process around the world: the active driver of the package \<open>metric\<close> (set by
  \<open>metric.Set\<close>), the seconds spent in \<open>time.Sleep\<close>, the fatal entries of the log,
  and whether \<open>log.Fatal\<close> has terminated the process. A panic that nothing recovers
  terminates the process too; it is the result \<open>Panic\<close>.
\<close>

record 'r process =
  global :: "'r world"
  driver :: "addr option"
  slept :: nat
  fatalLog :: "log_entry list"
  exited :: bool

text \<open>The options \<open>Dial\<close> starts from, with the given ones applied in order.\<close>

definition dialOptions :: "'r environment \<Rightarrow> Option list \<Rightarrow> options" where
  "dialOptions env opts =
     fold (\<lambda>optFn opt. optFn opt) opts
       \<lparr>o_prefix = getDefaultPrefix env, o_port = 0, o_path = DefaultMetricsPath,
        o_namespace = '''', o_subsystem = '''',
        o_buckets = Some DefaultHistogramBuckets, o_registry = None\<rparr>"

text \<open>
  \<open>Dial\<close>. After \<open>Validate\<close> the registry is not nil; the branch for a nil registry
  is kept as a panic. A nil slice of buckets is the empty list.
\<close>

definition Dial ::
  "(mux \<Rightarrow> string \<Rightarrow> bool) \<Rightarrow> 'r environment \<Rightarrow> Option list \<Rightarrow> 'r process \<Rightarrow>
     (error option \<times> 'r process) result" where
  "Dial accepts env opts pr =
     (case Validate env (dialOptions env opts) (global pr) of
        (Some err, opt, w1) \<Rightarrow>
          Return (Some err,
            pr\<lparr>global := (if \<not> InDev env then logError logger err w1 else w1)\<rparr>)
      | (None, opt, w1) \<Rightarrow>
          (case o_registry opt of
             None \<Rightarrow> Panic ''invalid memory address or nil pointer dereference''
           | Some reg \<Rightarrow>
               (let prom = nextAddr w1;
                    w2 = w1\<lparr>stores := (stores w1)(prom \<mapsto>
                             newPrometheus '''' (o_namespace opt) (o_subsystem opt) reg
                               (case o_buckets opt of None \<Rightarrow> [] | Some bs \<Rightarrow> bs)),
                           nextAddr := nextAddr w1 + 1\<rparr>
                in case WithPrefix prom (o_prefix opt) w2 of
                     None \<Rightarrow> Panic ''invalid memory address or nil pointer dereference''
                   | Some (m, w3) \<Rightarrow>
                       (case startServer accepts (o_port opt) (o_path opt) reg w3 of
                          Panic msg \<Rightarrow> Panic msg
                        | Return (Some err, w4) \<Rightarrow>
                            Return (Some err,
                              pr\<lparr>global := logError logger err w4, driver := Some m\<rparr>)
                        | Return (None, w4) \<Rightarrow>
                            Return (None,
                              pr\<lparr>global :=
                                   logInfo (logger @
                                     [AttrI ''port'' (o_port opt), AttrS ''path'' (o_path opt),
                                      AttrS ''prefix'' (o_prefix opt)]) ''started'' w4,
                                 driver := Some m\<rparr>)))))"

section \<open>MustDial\<close>

text \<open>
  Modelled from the spec: \<open>log.Fatal\<close> of the package \<open>svckit/log\<close>, whose source is
  not part of these files. It writes a fatal log entry for the error and terminates the
  process.
\<close>

definition log_Fatal :: "error \<Rightarrow> 'r process \<Rightarrow> 'r process" where
  "log_Fatal err pr =
     pr\<lparr>fatalLog := fatalLog pr @ [Entry LevelFatal [] (Failure err)], exited := True\<rparr>"

text \<open>\<open>time.Sleep(time.Second)\<close>.\<close>

definition time_Sleep_Second :: "'r process \<Rightarrow> 'r process" where
  "time_Sleep_Second pr = pr\<lparr>slept := slept pr + 1\<rparr>"

text \<open>
  The loop of \<open>MustDial\<close>, from the label \<open>again\<close>, with the counter \<open>r\<close>. It ends
  whatever \<open>Dial\<close> does: \<open>r\<close> grows with every retry, and beyond 10 there is none.
\<close>

function again ::
  "(mux \<Rightarrow> string \<Rightarrow> bool) \<Rightarrow> 'r environment \<Rightarrow> Option list \<Rightarrow> nat \<Rightarrow> 'r process \<Rightarrow>
     'r process result" where
  "again accepts env opts r pr =
     (case Dial accepts env opts pr of
        Panic msg \<Rightarrow> Panic msg
      | Return (None, pr1) \<Rightarrow> Return pr1
      | Return (Some err, pr1) \<Rightarrow>
          if r > 10 then Return (log_Fatal err pr1)
          else again accepts env opts (r + 1) (time_Sleep_Second pr1))"
  by pat_completeness auto
termination
  by (relation "measure (\<lambda>(accepts, env, opts, r, pr). 11 - r)") auto

definition MustDial ::
  "(mux \<Rightarrow> string \<Rightarrow> bool) \<Rightarrow> 'r environment \<Rightarrow> Option list \<Rightarrow> 'r process \<Rightarrow>
     'r process result" where
  "MustDial accepts env opts pr = again accepts env opts 0 pr"

text \<open>
  The path and the registry that \<open>Dial\<close> passes to \<open>startServer\<close> for a list of
  options.
\<close>

definition dialPath :: "'r environment \<Rightarrow> Option list \<Rightarrow> string" where
  "dialPath env opts =
     (if o_path (dialOptions env opts) = '''' then DefaultMetricsPath
      else o_path (dialOptions env opts))"

definition dialRegistry :: "'r environment \<Rightarrow> Option list \<Rightarrow> 'r world \<Rightarrow> addr" where
  "dialRegistry env opts w =
     (case o_registry (dialOptions env opts) of None \<Rightarrow> nextAddr w | Some reg \<Rightarrow> reg)"

text \<open>A sample environment and the process that starts in the sample world.\<close>

definition sampleEnv :: "unit environment" where
  "sampleEnv =
     \<lparr>AppName = ''app'', InstanceId = ''1'', Getenv = (\<lambda>name. ''''), InDev = False,
      NewRegistry = ()\<rparr>"

definition sampleProcess :: "unit process" where
  "sampleProcess =
     \<lparr>global = sampleWorld, driver = None, slept = 0, fatalLog = [], exited = False\<rparr>"

section \<open>Properties of the sanitizer\<close>

text \<open>The table of the package's own test of the sanitizer, and two inputs beyond ASCII:
  a two-byte rune becomes one underscore, a lone lead byte too.\<close>

lemma sanitizeName_examples:
  "sanitizeName ''simple'' = ''simple''"
  "sanitizeName ''with.dots'' = ''with_dots''"
  "sanitizeName ''with-dashes'' = ''with_dashes''"
  "sanitizeName ''with spaces'' = ''with_spaces''"
  "sanitizeName ''123start'' = ''_123start''"
  "sanitizeName ''valid_name'' = ''valid_name''"
  "sanitizeName ''http.requests.total'' = ''http_requests_total''"
  "sanitizeName [CHR 0xC3, CHR 0xA9, CHR ''a''] = ''_a''"
  "sanitizeName [CHR 0xC3, CHR ''a''] = ''_a''"
  by (simp_all add: sanitizeName_def replaceDots_def startsWithInvalid_def isNameChar_def
      isStartChar_def inRange_def byte_def runeWidth_def leadByte_def isContinuation_def)

lemma isStartChar_isNameChar: "isStartChar c \<Longrightarrow> isNameChar c"
  by (auto simp: isStartChar_def isNameChar_def)

lemma underscore_isStartChar: "isStartChar CHR ''_''"
  by (simp add: isStartChar_def)

lemma dot_not_isNameChar: "\<not> isNameChar CHR ''.''"
  by (simp add: isNameChar_def inRange_def byte_def)

lemma replaceInvalidChars_all: "list_all isNameChar (replaceInvalidChars s)"
  by (induction s rule: replaceInvalidChars.induct)
     (simp_all add: isStartChar_isNameChar underscore_isStartChar)

lemma replaceInvalidChars_id: "list_all isNameChar s \<Longrightarrow> replaceInvalidChars s = s"
  by (induction s) simp_all

lemma replaceDots_id: "list_all isNameChar s \<Longrightarrow> replaceDots s = s"
proof (induction s)
  case Nil
  then show ?case by (simp add: replaceDots_def)
next
  case (Cons c cs)
  then have "c \<noteq> CHR ''.''" using dot_not_isNameChar by auto
  with Cons show ?case by (simp add: replaceDots_def)
qed

lemma replaceInvalidChars_empty: "replaceInvalidChars s = [] \<longleftrightarrow> s = []"
  by (cases s) simp_all

lemma sanitizeName_all: "list_all isNameChar (sanitizeName s)"
  by (simp add: sanitizeName_def Let_def replaceInvalidChars_all
      isStartChar_isNameChar underscore_isStartChar)

lemma sanitizeName_start: "\<not> startsWithInvalid (sanitizeName s)"
  by (simp add: sanitizeName_def Let_def startsWithInvalid_def underscore_isStartChar
      split: list.splits)

lemma sanitizeName_nonempty: "s \<noteq> [] \<Longrightarrow> matchesIdentifier (sanitizeName s)"
proof -
  assume ne: "s \<noteq> []"
  have "replaceInvalidChars (replaceDots s) \<noteq> []"
    using ne by (simp add: replaceInvalidChars_empty replaceDots_def)
  then have "sanitizeName s \<noteq> []"
    by (simp add: sanitizeName_def Let_def)
  then obtain c cs where cs: "sanitizeName s = c # cs"
    by (cases "sanitizeName s") auto
  have "isStartChar c"
    using sanitizeName_start [of s] cs by (simp add: startsWithInvalid_def)
  moreover have "list_all isNameChar cs"
    using sanitizeName_all [of s] cs by simp
  ultimately show ?thesis
    by (simp add: matchesIdentifier_def cs)
qed

text \<open>
  C2. The specification has \<open>sanitizeName s\<close> match \<open>^[A-Za-z_][A-Za-z0-9_:]*$\<close>
  for every string \<open>s\<close>. The code does not do this at the empty string: no
  dot and no invalid rune is replaced, \<open>^[^a-zA-Z_]\<close> needs a first rune and so does
  not match, nothing is prepended, and the result is the empty string, which the
  grammar rejects.
\<close>

theorem sanitizeName_empty_not_identifier:
  "sanitizeName '''' = '''' \<and> \<not> matchesIdentifier (sanitizeName '''')"
  by (simp add: sanitizeName_def replaceDots_def startsWithInvalid_def matchesIdentifier_def)

text \<open>
  C8. The sanitizer is idempotent: \<open>sanitizeName (sanitizeName s) = sanitizeName s\<close>
  for every string \<open>s\<close>.
\<close>

theorem sanitizeName_idempotent: "sanitizeName (sanitizeName s) = sanitizeName s"
proof -
  let ?t = "sanitizeName s"
  have allc: "list_all isNameChar ?t" by (rule sanitizeName_all)
  have "replaceInvalidChars (replaceDots ?t) = ?t"
    by (simp add: replaceDots_id [OF allc] replaceInvalidChars_id [OF allc])
  moreover have "\<not> startsWithInvalid ?t" by (rule sanitizeName_start)
  ultimately show ?thesis
    by (simp add: sanitizeName_def [of ?t] Let_def)
qed

section \<open>Properties of the metric store\<close>

lemma getOrCreate_hit:
  "stores w p = Some P \<Longrightarrow> handles k P name = Some h \<Longrightarrow>
     getOrCreate k lib p name w = Some (h, w)"
  by (cases k)
     (simp_all add: getOrCreate_def handles_def getOrCreateCounter_def getOrCreateGauge_def
        getOrCreateHistogram_def)

lemma handles_setHandle: "handles k (setHandle k name h P) name = Some h"
  by (cases k) (simp_all add: handles_def setHandle_def)

lemma prefixes_setHandle: "prefixes (setHandle k name h P) = prefixes P"
  by (cases k) (simp_all add: setHandle_def)

lemma getOrCreate_registered:
  assumes "stores w p = Some P" and "handles k P name = None"
    and "Register lib (registries w (registry P)) (nextAddr w) (newCollector k P name) = (None, r')"
  shows "getOrCreate k lib p name w =
      Some (nextAddr w,
        w\<lparr>collectors := (collectors w)(nextAddr w \<mapsto> newCollector k P name),
          nextAddr := nextAddr w + 1,
          registries := (registries w)(registry P := r'),
          stores := (stores w)(p \<mapsto> setHandle k name (nextAddr w) P)\<rparr>)"
  using assms
  by (cases k)
     (simp_all add: getOrCreate_def handles_def newCollector_def getOrCreateCounter_def
        getOrCreateGauge_def getOrCreateHistogram_def allocCollector_def registryRegister_def
        Let_def setHandle_def)

lemma getOrCreate_adopt:
  assumes "stores w p = Some P" and "handles k P name = None"
    and "Register lib (registries w (registry P)) (nextAddr w) (newCollector k P name) =
           (Some (AlreadyRegisteredError existing new), r')"
    and "Implements lib k existing"
  shows "getOrCreate k lib p name w =
      Some (existing,
        w\<lparr>collectors := (collectors w)(nextAddr w \<mapsto> newCollector k P name),
          nextAddr := nextAddr w + 1,
          registries := (registries w)(registry P := r'),
          stores := (stores w)(p \<mapsto> setHandle k name existing P)\<rparr>)"
  using assms
  by (cases k)
     (simp_all add: getOrCreate_def handles_def newCollector_def getOrCreateCounter_def
        getOrCreateGauge_def getOrCreateHistogram_def allocCollector_def registryRegister_def
        Let_def setHandle_def)

lemma getOrCreate_degrade:
  assumes "stores w p = Some P" and "handles k P name = None"
    and "Register lib (registries w (registry P)) (nextAddr w) (newCollector k P name) = (Some e, r')"
    and "\<not> adoptable lib k e"
  shows "getOrCreate k lib p name w =
      Some (nextAddr w,
        w\<lparr>collectors := (collectors w)(nextAddr w \<mapsto> newCollector k P name),
          nextAddr := nextAddr w + 1,
          registries := (registries w)(registry P := r'),
          logs := logs w @
            [Entry LevelError (logger @ [AttrS ''name'' (buildMetricName P name)]) (Failure e)]\<rparr>)"
  using assms
  by (cases k; cases e)
     (simp_all add: getOrCreate_def handles_def newCollector_def getOrCreateCounter_def
        getOrCreateGauge_def getOrCreateHistogram_def allocCollector_def registryRegister_def
        Let_def adoptable_def logError_def)

lemma getOrCreate_total:
  assumes st: "stores w p = Some P"
  shows "\<exists>h w'. getOrCreate k lib p name w = Some (h, w')"
proof (cases "handles k P name")
  case (Some h)
  then show ?thesis using getOrCreate_hit [OF st] by blast
next
  case miss: None
  obtain err r' where
    r: "Register lib (registries w (registry P)) (nextAddr w) (newCollector k P name) = (err, r')"
    by (cases "Register lib (registries w (registry P)) (nextAddr w) (newCollector k P name)")
  show ?thesis
  proof (cases err)
    case None
    with r have "Register lib (registries w (registry P)) (nextAddr w) (newCollector k P name) =
        (None, r')"
      by simp
    from getOrCreate_registered [OF st miss this] show ?thesis by simp
  next
    case (Some e)
    with r have re: "Register lib (registries w (registry P)) (nextAddr w)
        (newCollector k P name) = (Some e, r')"
      by simp
    show ?thesis
    proof (cases "adoptable lib k e")
      case True
      then obtain existing new where
        e: "e = AlreadyRegisteredError existing new" and impl: "Implements lib k existing"
        by (cases e) (auto simp: adoptable_def)
      from getOrCreate_adopt [OF st miss re [unfolded e] impl] show ?thesis by simp
    next
      case False
      from getOrCreate_degrade [OF st miss re False] show ?thesis by simp
    qed
  qed
qed

lemma sampleWorld_store:
  "stores sampleWorld 0 = Some (newPrometheus ''test.'' '''' '''' 0 [])"
  by (simp add: sampleWorld_def)

lemma sample_miss: "handles k (newPrometheus pfx ns sub reg bs) name = None"
  by (cases k) (simp_all add: handles_def newPrometheus_def)

lemma sample_register:
  "Register sampleClient r c obj = (Some (AlreadyRegisteredError 7 c), r)"
  by (simp add: sampleClient_def)

lemma sample_metricName:
  "buildMetricName (newPrometheus ''test.'' '''' '''' 0 []) ''requests'' = ''test_requests''"
  by (simp add: buildMetricName_def newPrometheus_def sanitizeName_def replaceDots_def
      startsWithInvalid_def isNameChar_def isStartChar_def inRange_def byte_def)

text \<open>
  C4. The specification has \<open>getOrCreate\<close> adopt the existing collector only when it is
  of the requested kind, and otherwise log the failure and return its own handle. The
  code tests the kind by a type assertion, and a gauge passes the assertion to
  \<open>prometheus.Counter\<close>: where the registry answers the registration of the counter
  \<open>requests\<close> with \<open>AlreadyRegisteredError\<close> and a gauge, \<open>getOrCreateCounter\<close>
  returns the gauge, caches it as the counter of that name and logs nothing. The
  function for gauges, given a counter in the same way, logs and returns its own
  handle.
\<close>

theorem getOrCreateCounter_adopts_gauge:
  "collectors gaugeWorld 7 =
     Some (NewGauge \<lparr>Namespace = '''', Subsystem = '''', Name = ''test_requests'',
                    Help = ''Counter metric: test_requests''\<rparr>) \<and>
   getOrCreate CounterKind gaugeClient 0 ''requests'' gaugeWorld =
     Some (7,
       gaugeWorld
         \<lparr>collectors := (collectors gaugeWorld)
            (8 \<mapsto> NewCounter \<lparr>Namespace = '''', Subsystem = '''', Name = ''test_requests'',
                               Help = ''Counter metric: test_requests''\<rparr>),
          nextAddr := 9,
          stores := [0 \<mapsto> (newPrometheus ''test.'' '''' '''' 0 [])
                              \<lparr>counters := [''requests'' \<mapsto> 7]\<rparr>]\<rparr>) \<and>
   logs gaugeWorld = []"
proof -
  let ?P = "newPrometheus ''test.'' '''' '''' 0 []"
  have st: "stores gaugeWorld 0 = Some ?P" by (simp add: gaugeWorld_def sampleWorld_def)
  have n: "nextAddr gaugeWorld = 8" by (simp add: gaugeWorld_def sampleWorld_def)
  have reg: "Register gaugeClient (registries gaugeWorld (registry ?P)) (nextAddr gaugeWorld)
      (newCollector CounterKind ?P ''requests'') =
        (Some (AlreadyRegisteredError 7 (nextAddr gaugeWorld)),
         registries gaugeWorld (registry ?P))"
    by (simp add: gaugeClient_def)
  have impl: "Implements gaugeClient CounterKind 7"
    by (simp add: gaugeClient_def typeAssertion_def gaugeWorld_def interfaceMethods_def
        methodsOf_def)
  have obj: "newCollector CounterKind ?P ''requests'' =
      NewCounter \<lparr>Namespace = '''', Subsystem = '''', Name = ''test_requests'',
                  Help = ''Counter metric: test_requests''\<rparr>"
    by (simp add: newCollector_def counterOpts_def sample_metricName) (simp add: newPrometheus_def)
  have upd: "setHandle CounterKind ''requests'' 7 ?P = ?P\<lparr>counters := [''requests'' \<mapsto> 7]\<rparr>"
    by (simp add: setHandle_def newPrometheus_def)
  have "getOrCreate CounterKind gaugeClient 0 ''requests'' gaugeWorld =
      Some (7,
        gaugeWorld
          \<lparr>collectors := (collectors gaugeWorld)(8 \<mapsto> newCollector CounterKind ?P ''requests''),
           nextAddr := 9,
           stores := (stores gaugeWorld)(0 \<mapsto> setHandle CounterKind ''requests'' 7 ?P)\<rparr>)"
    using getOrCreate_adopt [OF st sample_miss reg impl] by (simp add: n fun_upd_idem)
  moreover have "(stores gaugeWorld)(0 \<mapsto> ?P\<lparr>counters := [''requests'' \<mapsto> 7]\<rparr>) =
      [0 \<mapsto> ?P\<lparr>counters := [''requests'' \<mapsto> 7]\<rparr>]"
    by (simp add: gaugeWorld_def sampleWorld_def)
  ultimately show ?thesis
    by (simp add: obj upd) (simp add: gaugeWorld_def sampleWorld_def)
qed

lemma getOrCreateGauge_rejects_counter:
  "\<not> typeAssertion [7 \<mapsto> NewCounter opts] GaugeKind 7"
  "\<not> typeAssertion [7 \<mapsto> NewCounter opts] HistogramKind 7"
  "\<not> typeAssertion [7 \<mapsto> NewGauge opts] HistogramKind 7"
  "\<not> typeAssertion [7 \<mapsto> NewHistogram opts bs] CounterKind 7"
  "\<not> typeAssertion [7 \<mapsto> NewHistogram opts bs] GaugeKind 7"
  "typeAssertion [7 \<mapsto> NewGauge opts] CounterKind 7"
  by (simp_all add: typeAssertion_def interfaceMethods_def methodsOf_def)

text \<open>
  C10. When the registration of the newly built handle fails and nothing can be adopted
  (the error is no \<open>AlreadyRegisteredError\<close>, or its existing collector does not pass
  the type assertion), \<open>getOrCreate\<close> returns the fresh handle and leaves every store
  of the heap as it was, so the name is still absent from the map. Every later call for
  the same name that finds the store as it was and meets such an error again (the next
  call, made in the world the first one leaves, is one) builds and returns the handle
  that is fresh then, different from the first, and again leaves the stores as they are.
\<close>

theorem getOrCreate_failure_not_cached:
  assumes "stores w p = Some P" and "handles k P name = None"
    and "Register lib (registries w (registry P)) (nextAddr w) (newCollector k P name) =
           (Some e, r')"
    and "\<not> adoptable lib k e"
  shows "\<exists>w'. getOrCreate k lib p name w = Some (nextAddr w, w') \<and>
           collectors w' (nextAddr w) = Some (newCollector k P name) \<and>
           stores w' = stores w \<and> nextAddr w' = nextAddr w + 1 \<and>
           registries w' (registry P) = r' \<and>
           (\<forall>w2 e2 r2.
              stores w2 p = Some P \<and> nextAddr w < nextAddr w2 \<and>
              Register lib (registries w2 (registry P)) (nextAddr w2) (newCollector k P name) =
                (Some e2, r2) \<and>
              \<not> adoptable lib k e2 \<longrightarrow>
              (\<exists>w3. getOrCreate k lib p name w2 = Some (nextAddr w2, w3) \<and>
                 nextAddr w2 \<noteq> nextAddr w \<and>
                 collectors w3 (nextAddr w2) = Some (newCollector k P name) \<and>
                 stores w3 = stores w2))"
proof -
  let ?w' = "w\<lparr>collectors := (collectors w)(nextAddr w \<mapsto> newCollector k P name),
          nextAddr := nextAddr w + 1,
          registries := (registries w)(registry P := r'),
          logs := logs w @
            [Entry LevelError (logger @ [AttrS ''name'' (buildMetricName P name)]) (Failure e)]\<rparr>"
  have first: "getOrCreate k lib p name w = Some (nextAddr w, ?w')"
    by (rule getOrCreate_degrade [OF assms])
  have later: "\<exists>w3. getOrCreate k lib p name w2 = Some (nextAddr w2, w3) \<and>
      nextAddr w2 \<noteq> nextAddr w \<and>
      collectors w3 (nextAddr w2) = Some (newCollector k P name) \<and>
      stores w3 = stores w2"
    if st2: "stores w2 p = Some P" and n2: "nextAddr w < nextAddr w2"
      and r2: "Register lib (registries w2 (registry P)) (nextAddr w2)
                 (newCollector k P name) = (Some e2, r2)"
      and na: "\<not> adoptable lib k e2" for w2 e2 r2
    using getOrCreate_degrade [OF st2 assms(2) r2 na] n2 by simp
  have "getOrCreate k lib p name w = Some (nextAddr w, ?w') \<and>
      collectors ?w' (nextAddr w) = Some (newCollector k P name) \<and>
      stores ?w' = stores w \<and> nextAddr ?w' = nextAddr w + 1 \<and>
      registries ?w' (registry P) = r'"
    using first by simp
  with later show ?thesis by blast
qed

theorem getOrCreate_failure_not_cached_witness:
  "\<exists>w'. getOrCreate GaugeKind sampleClient 0 ''requests'' sampleWorld = Some (8, w') \<and>
     collectors w' 8 =
       Some (NewGauge \<lparr>Namespace = '''', Subsystem = '''', Name = ''test_requests'',
                      Help = ''Gauge metric: test_requests''\<rparr>) \<and>
     stores w' = stores sampleWorld \<and>
     (\<exists>w''. getOrCreate GaugeKind sampleClient 0 ''requests'' w' = Some (9, w'') \<and>
        collectors w'' 9 =
          Some (NewGauge \<lparr>Namespace = '''', Subsystem = '''', Name = ''test_requests'',
                         Help = ''Gauge metric: test_requests''\<rparr>) \<and>
        stores w'' = stores sampleWorld)"
proof -
  let ?P = "newPrometheus ''test.'' '''' '''' 0 []"
  let ?obj = "NewGauge \<lparr>Namespace = '''', Subsystem = '''', Name = ''test_requests'',
                Help = ''Gauge metric: test_requests''\<rparr>"
  have na: "\<not> adoptable sampleClient GaugeKind (AlreadyRegisteredError 7 c)" for c
    by (simp add: adoptable_def sampleClient_def)
  have n: "nextAddr sampleWorld = 8" by (simp add: sampleWorld_def)
  have obj: "newCollector GaugeKind ?P ''requests'' = ?obj"
    by (simp add: newCollector_def gaugeOpts_def sample_metricName) (simp add: newPrometheus_def)
  have reg: "registry ?P = 0" by (simp add: newPrometheus_def)
  from getOrCreate_failure_not_cached [where k = GaugeKind and name = "''requests''"
      and lib = sampleClient, OF sampleWorld_store sample_miss sample_register na]
  obtain w' where
    a: "getOrCreate GaugeKind sampleClient 0 ''requests'' sampleWorld = Some (8, w')" and
    b: "collectors w' 8 = Some ?obj" and
    c: "stores w' = stores sampleWorld" and
    m: "nextAddr w' = 9" and
    d: "\<And>w2 e2 r2. stores w2 0 = Some ?P \<Longrightarrow> 8 < nextAddr w2 \<Longrightarrow>
          Register sampleClient (registries w2 0) (nextAddr w2) ?obj = (Some e2, r2) \<Longrightarrow>
          \<not> adoptable sampleClient GaugeKind e2 \<Longrightarrow>
          \<exists>w3. getOrCreate GaugeKind sampleClient 0 ''requests'' w2 = Some (nextAddr w2, w3) \<and>
             nextAddr w2 \<noteq> 8 \<and> collectors w3 (nextAddr w2) = Some ?obj \<and>
             stores w3 = stores w2"
    unfolding n obj reg by auto
  have s2: "stores w' 0 = Some ?P" using c sampleWorld_store by simp
  have l2: "8 < nextAddr w'" using m by simp
  from d [OF s2 l2 sample_register na]
  obtain w'' where
    "getOrCreate GaugeKind sampleClient 0 ''requests'' w' = Some (9, w'')"
    "collectors w'' 9 = Some ?obj" "stores w'' = stores sampleWorld"
    unfolding m c by auto
  with a b c show ?thesis by blast
qed

lemma fold_add_sum_list: "fold (\<lambda>v acc. acc + v) vs (a :: 'a::len word) = a + sum_list vs"
  by (induction vs arbitrary: a) (simp_all add: add.assoc)

lemma signed_take_bit_add_right:
  "signed_take_bit n (a + signed_take_bit n b) = signed_take_bit n (a + b)" for a b :: int
  by (metis signed_take_bit_add signed_take_bit_signed_take_bit min.idem)

lemma sint_sum_list:
  "sint (sum_list (vs :: 'a::len word list)) =
     signed_take_bit (LENGTH('a) - 1) (\<Sum>v\<leftarrow>vs. sint v)"
  by (induction vs) (simp_all add: sint_word_add signed_take_bit_add_right)

lemma sint_sum_list_exact:
  fixes vs :: "go_int list"
  assumes "- (2 ^ 63) \<le> (\<Sum>v\<leftarrow>vs. sint v)" and "(\<Sum>v\<leftarrow>vs. sint v) < 2 ^ 63"
  shows "sint (sum_list vs) = (\<Sum>v\<leftarrow>vs. sint v)"
  using assms by (simp add: sint_sum_list signed_take_bit_int_eq_self)

lemma getOrCreateCounter_total:
  "stores w p = Some P \<Longrightarrow> \<exists>h w'. getOrCreateCounter lib p name w = Some (h, w')"
  using getOrCreate_total [of w p P CounterKind lib name] by (simp add: getOrCreate_def)


text \<open>
  C6. On a store of the heap, \<open>Counter name\<close> without values calls \<open>Add\<close> with
  \<open>float64(1)\<close> on the counter that \<open>getOrCreateCounter\<close> gives for the name. With
  one or more values it calls \<open>Add\<close> with the conversion of their sum as Go's \<open>int\<close>
  computes it, whatever its sign: nothing is checked before the call. That sum is the
  sum of the values as integers whenever the latter fits Go's \<open>int\<close>.
\<close>

theorem Counter_adds_sum:
  assumes "stores w p = Some P"
  shows "\<exists>h w'. getOrCreateCounter lib p name w = Some (h, w') \<and>
           Counter lib p name [] w =
             Some (w'\<lparr>backend := backend w' @ [Add h (Float64_of_int 1)]\<rparr>) \<and>
           (vals \<noteq> [] \<longrightarrow>
              Counter lib p name vals w =
                Some (w'\<lparr>backend := backend w' @
                  [Add h (Float64_of_int (sint (sum_list vals)))]\<rparr>)) \<and>
           (vals \<noteq> [] \<and> - (2 ^ 63) \<le> (\<Sum>v\<leftarrow>vals. sint v) \<and> (\<Sum>v\<leftarrow>vals. sint v) < 2 ^ 63 \<longrightarrow>
              Counter lib p name vals w =
                Some (w'\<lparr>backend := backend w' @
                  [Add h (Float64_of_int (\<Sum>v\<leftarrow>vals. sint v))]\<rparr>))"
proof -
  from getOrCreateCounter_total [OF assms] obtain h w' where
    g: "getOrCreateCounter lib p name w = Some (h, w')"
    by blast
  have none: "Counter lib p name [] w =
      Some (w'\<lparr>backend := backend w' @ [Add h (Float64_of_int 1)]\<rparr>)"
    by (simp add: Counter_def g)
  have some: "Counter lib p name vals w =
      Some (w'\<lparr>backend := backend w' @ [Add h (Float64_of_int (sint (sum_list vals)))]\<rparr>)"
    if "vals \<noteq> []"
    using that by (simp add: Counter_def g fold_add_sum_list)
  have exact: "Counter lib p name vals w =
      Some (w'\<lparr>backend := backend w' @ [Add h (Float64_of_int (\<Sum>v\<leftarrow>vals. sint v))]\<rparr>)"
    if "vals \<noteq> []" and "- (2 ^ 63) \<le> (\<Sum>v\<leftarrow>vals. sint v)" and "(\<Sum>v\<leftarrow>vals. sint v) < 2 ^ 63"
    using that some by (simp add: sint_sum_list_exact)
  from g none some exact show ?thesis by blast
qed

lemma sample_getOrCreateCounter:
  "\<exists>w'. getOrCreateCounter sampleClient 0 ''requests'' sampleWorld = Some (7, w')"
proof -
  have "Implements sampleClient CounterKind 7" by (simp add: sampleClient_def)
  from getOrCreate_adopt [where k = CounterKind and name = "''requests''",
      OF sampleWorld_store sample_miss sample_register this]
  show ?thesis by (simp add: getOrCreate_def)
qed

theorem Counter_adds_sum_witness:
  "\<exists>w'. getOrCreateCounter sampleClient 0 ''requests'' sampleWorld = Some (7, w') \<and>
     Counter sampleClient 0 ''requests'' [] sampleWorld =
       Some (w'\<lparr>backend := backend w' @ [Add 7 (Float64_of_int 1)]\<rparr>) \<and>
     Counter sampleClient 0 ''requests'' [2, - 5] sampleWorld =
       Some (w'\<lparr>backend := backend w' @ [Add 7 (Float64_of_int (- 3))]\<rparr>)"
proof -
  from sample_getOrCreateCounter obtain w1 where
    g: "getOrCreateCounter sampleClient 0 ''requests'' sampleWorld = Some (7, w1)"
    by blast
  have ne: "[2, - 5] \<noteq> ([] :: go_int list)" by simp
  have s: "(\<Sum>v\<leftarrow>[2, - 5 :: go_int]. sint v) = - 3" by simp
  from Counter_adds_sum [OF sampleWorld_store, of sampleClient "''requests''" "[2, - 5]"]
  obtain h w' where
    a: "getOrCreateCounter sampleClient 0 ''requests'' sampleWorld = Some (h, w')" and
    b: "Counter sampleClient 0 ''requests'' [] sampleWorld =
          Some (w'\<lparr>backend := backend w' @ [Add h (Float64_of_int 1)]\<rparr>)" and
    c: "[2, - 5] \<noteq> ([] :: go_int list) \<and> - (2 ^ 63) \<le> (\<Sum>v\<leftarrow>[2, - 5 :: go_int]. sint v) \<and>
          (\<Sum>v\<leftarrow>[2, - 5 :: go_int]. sint v) < 2 ^ 63 \<longrightarrow>
        Counter sampleClient 0 ''requests'' [2, - 5] sampleWorld =
          Some (w'\<lparr>backend := backend w' @
            [Add h (Float64_of_int (\<Sum>v\<leftarrow>[2, - 5 :: go_int]. sint v))]\<rparr>)"
    by blast
  from a g have h: "h = 7" "w' = w1" by simp_all
  from c have "Counter sampleClient 0 ''requests'' [2, - 5] sampleWorld =
      Some (w'\<lparr>backend := backend w' @ [Add h (Float64_of_int (- 3))]\<rparr>)"
    unfolding s by simp
  with a b h show ?thesis by blast
qed



text \<open>
  C9. The empty string is a fixed point of the sanitizer: nothing is prepended. So on a
  store whose prefix is empty the empty local name gives the empty metric name, which
  the identifier grammar of the backend rejects.
\<close>

theorem sanitizeName_empty_fixed_point:
  "sanitizeName '''' = '''' \<and>
   buildMetricName (P\<lparr>prefix := ''''\<rparr>) '''' = '''' \<and>
   \<not> matchesIdentifier (buildMetricName (P\<lparr>prefix := ''''\<rparr>) '''')"
  by (simp add: buildMetricName_def sanitizeName_def replaceDots_def startsWithInvalid_def
      matchesIdentifier_def)

section \<open>Properties of the prefix tree\<close>

lemma WithPrefix_hit:
  "stores w p = Some P \<Longrightarrow> prefixes P q = Some (Some s) \<Longrightarrow> WithPrefix p q w = Some (s, w)"
  by (simp add: WithPrefix_def)

lemma WithPrefix_new:
  assumes "stores w p = Some P" and "\<forall>s. prefixes P q \<noteq> Some (Some s)"
  shows "WithPrefix p q w =
    Some (nextAddr w,
      w\<lparr>stores := ((stores w)(nextAddr w \<mapsto>
           newPrometheus (if \<not> HasSuffix q ''.'' then q @ ''.'' else q)
             (namespace P) (subsystem P) (registry P) (buckets P)))
           (p \<mapsto> P\<lparr>prefixes := (prefixes P)(q \<mapsto> Some (nextAddr w))\<rparr>),
         nextAddr := nextAddr w + 1\<rparr>)"
proof -
  from assms(2) have "prefixes P q = None \<or> prefixes P q = Some None"
    by (cases "prefixes P q") auto
  then show ?thesis
    using assms(1) by (auto simp: WithPrefix_def Let_def)
qed

lemma sameShape_refl: "sameShape A A"
  by (simp add: sameShape_def)

lemma sameShape_setHandle: "sameShape (setHandle k name h P) P"
  by (cases k) (simp_all add: sameShape_def setHandle_def)

lemma derivedFrom_shape:
  "derivedFrom P q S \<Longrightarrow> sameShape P' P \<Longrightarrow> sameShape S' S \<Longrightarrow> derivedFrom P' q S'"
  by (simp add: derivedFrom_def sameShape_def)

lemma derivedFrom_new:
  "derivedFrom P q
     (newPrometheus (if \<not> HasSuffix q ''.'' then q @ ''.'' else q)
        (namespace P) (subsystem P) (registry P) (buckets P))"
  by (simp add: derivedFrom_def newPrometheus_def normalizePrefix_def)

lemma wellFormedI:
  assumes "\<And>p P. stores w p = Some P \<Longrightarrow> p < nextAddr w \<and> prefixesOk w P"
  shows "wellFormed w"
  using assms by (simp add: wellFormed_def)

lemma wellFormedD:
  "wellFormed w \<Longrightarrow> stores w p = Some P \<Longrightarrow> p < nextAddr w \<and> prefixesOk w P"
  by (simp add: wellFormed_def)

lemma prefixesOk_target:
  "prefixesOk w P \<Longrightarrow> prefixes P q = Some (Some s) \<Longrightarrow>
     s < nextAddr w \<and> (\<exists>S. stores w s = Some S \<and> derivedFrom P q S)"
  by (simp add: prefixesOk_def)

lemma prefixesOk_inj:
  "prefixesOk w P \<Longrightarrow> prefixes P q = Some (Some s) \<Longrightarrow> prefixes P q' = Some (Some s) \<Longrightarrow>
     q = q'"
  unfolding prefixesOk_def by blast

text \<open>The invariant of one store survives a step that keeps the shape of every store
  of the heap and does not touch the store's own cache.\<close>

lemma prefixesOk_transfer:
  assumes ok: "prefixesOk w A" and n: "nextAddr w \<le> nextAddr w'"
    and keep: "\<And>t T. stores w t = Some T \<Longrightarrow> \<exists>T'. stores w' t = Some T' \<and> sameShape T' T"
    and pre: "prefixes A' = prefixes A" and sh: "sameShape A' A"
  shows "prefixesOk w' A'"
  unfolding prefixesOk_def
proof (rule conjI; intro allI impI)
  fix q s assume "prefixes A' q = Some (Some s)"
  then have c: "prefixes A q = Some (Some s)" by (simp add: pre)
  from prefixesOk_target [OF ok c] obtain S where
    lt: "s < nextAddr w" and st: "stores w s = Some S" and d: "derivedFrom A q S"
    by blast
  from keep [OF st] obtain S' where st': "stores w' s = Some S'" and sh': "sameShape S' S"
    by blast
  from derivedFrom_shape [OF d sh sh'] st' lt n
  show "s < nextAddr w' \<and> (\<exists>S. stores w' s = Some S \<and> derivedFrom A' q S)" by auto
next
  fix q q' s assume "prefixes A' q = Some (Some s) \<and> prefixes A' q' = Some (Some s)"
  then have "prefixes A q = Some (Some s)" "prefixes A q' = Some (Some s)" by (simp_all add: pre)
  then show "q = q'" by (rule prefixesOk_inj [OF ok])
qed

lemma wellFormed_step:
  assumes wf: "wellFormed w" and st: "stores w p = Some P"
    and n: "nextAddr w \<le> nextAddr w'"
    and s': "stores w' = stores w \<or>
             (\<exists>P'. stores w' = (stores w)(p \<mapsto> P') \<and> prefixes P' = prefixes P \<and> sameShape P' P)"
  shows "wellFormed w'"
proof -
  have keep: "\<exists>T'. stores w' t = Some T' \<and> sameShape T' T \<and> (t \<noteq> p \<longrightarrow> T' = T) \<and>
      prefixes T' = prefixes T"
    if "stores w t = Some T" for t T
    using s' that st by (auto simp: sameShape_refl)
  have keep': "\<exists>T'. stores w' t = Some T' \<and> sameShape T' T" if "stores w t = Some T" for t T
    using keep [OF that] by blast
  have orig: "\<exists>A. stores w a = Some A \<and> sameShape A' A \<and> prefixes A' = prefixes A"
    if "stores w' a = Some A'" for a A'
    using s' that st by (auto simp: sameShape_refl split: if_splits)
  show ?thesis
  proof (rule wellFormedI)
    fix a A' assume sa: "stores w' a = Some A'"
    from orig [OF sa] obtain A where
      old: "stores w a = Some A" and sh: "sameShape A' A" and pre: "prefixes A' = prefixes A"
      by blast
    from wellFormedD [OF wf old] have lt: "a < nextAddr w" and ok: "prefixesOk w A" by simp_all
    from prefixesOk_transfer [OF ok n keep' pre sh] lt n
    show "a < nextAddr w' \<and> prefixesOk w' A'" by simp
  qed
qed

lemma WithPrefix_wellFormed:
  assumes wf: "wellFormed w" and c: "WithPrefix p q w = Some (s, w')"
  shows "wellFormed w'"
proof -
  from c obtain P where st: "stores w p = Some P"
    by (cases "stores w p") (simp_all add: WithPrefix_def)
  from wellFormedD [OF wf st] have pl: "p < nextAddr w" and ok: "prefixesOk w P" by simp_all
  show ?thesis
  proof (cases "\<exists>t. prefixes P q = Some (Some t)")
    case True
    then obtain t where "prefixes P q = Some (Some t)" by blast
    from WithPrefix_hit [OF st this] c have "w' = w" by simp
    with wf show ?thesis by simp
  next
    case False
    then have no: "\<forall>t. prefixes P q \<noteq> Some (Some t)" by simp
    let ?N = "newPrometheus (if \<not> HasSuffix q ''.'' then q @ ''.'' else q)
             (namespace P) (subsystem P) (registry P) (buckets P)"
    let ?P' = "P\<lparr>prefixes := (prefixes P)(q \<mapsto> Some (nextAddr w))\<rparr>"
    from WithPrefix_new [OF st no] c have w': "w' = w\<lparr>stores := ((stores w)(nextAddr w \<mapsto> ?N))
           (p \<mapsto> ?P'), nextAddr := nextAddr w + 1\<rparr>"
      by simp
    have n': "nextAddr w' = nextAddr w + 1" by (simp add: w')
    have n: "nextAddr w \<le> nextAddr w'" by (simp add: n')
    have shP: "sameShape ?P' P" by (simp add: sameShape_def)
    have sp: "stores w' p = Some ?P'" by (simp add: w')
    have sn: "stores w' (nextAddr w) = Some ?N" using pl by (simp add: w')
    have keep: "\<exists>T'. stores w' t = Some T' \<and> sameShape T' T" if t: "stores w t = Some T" for t T
    proof (cases "t = p")
      case True
      with t st have "T = P" by simp
      with True sp shP show ?thesis by simp
    next
      case False
      from wellFormedD [OF wf t] have "t \<noteq> nextAddr w" by simp
      with False t have "stores w' t = Some T" by (simp add: w')
      then show ?thesis by (simp add: sameShape_refl)
    qed
    have okN: "prefixesOk w' ?N" by (simp add: prefixesOk_def newPrometheus_def)
    have old: "y < nextAddr w" if "prefixes P x = Some (Some y)" for x y
      using prefixesOk_target [OF ok that] by simp
    have okP: "prefixesOk w' ?P'"
      unfolding prefixesOk_def
    proof (rule conjI; intro allI impI)
      fix k t assume a: "prefixes ?P' k = Some (Some t)"
      show "t < nextAddr w' \<and> (\<exists>S. stores w' t = Some S \<and> derivedFrom ?P' k S)"
      proof (cases "k = q")
        case True
        with a have t: "t = nextAddr w" by simp
        from derivedFrom_shape [OF derivedFrom_new [of P q] shP sameShape_refl]
        have "derivedFrom ?P' q ?N" .
        with t sn True show ?thesis by (simp add: n')
      next
        case False
        with a have pk: "prefixes P k = Some (Some t)" by simp
        from prefixesOk_target [OF ok pk] obtain S where
          lt: "t < nextAddr w" and ts: "stores w t = Some S" and d: "derivedFrom P k S"
          by blast
        from keep [OF ts] obtain S' where ts': "stores w' t = Some S'" and sh: "sameShape S' S"
          by blast
        from derivedFrom_shape [OF d shP sh] ts' lt show ?thesis by (simp add: n')
      qed
    next
      fix k k' t assume a: "prefixes ?P' k = Some (Some t) \<and> prefixes ?P' k' = Some (Some t)"
      show "k = k'"
      proof (cases "k = q")
        case True
        with a have t: "t = nextAddr w" by simp
        show ?thesis
        proof (rule ccontr)
          assume "k \<noteq> k'"
          with True a have "prefixes P k' = Some (Some t)" by (auto split: if_splits)
          from old [OF this] t show False by simp
        qed
      next
        case kq: False
        with a have pk: "prefixes P k = Some (Some t)" by simp
        show ?thesis
        proof (cases "k' = q")
          case True
          with a have "t = nextAddr w" by simp
          with old [OF pk] show ?thesis by simp
        next
          case False
          with a have "prefixes P k' = Some (Some t)" by simp
          from prefixesOk_inj [OF ok pk this] show ?thesis .
        qed
      qed
    qed
    show ?thesis
    proof (rule wellFormedI)
      fix a A assume sa: "stores w' a = Some A"
      show "a < nextAddr w' \<and> prefixesOk w' A"
      proof (cases "a = p")
        case True
        with sa sp have "A = ?P'" by simp
        with okP pl True show ?thesis by (simp add: n')
      next
        case ap: False
        show ?thesis
        proof (cases "a = nextAddr w")
          case True
          with sa sn have "A = ?N" by simp
          with okN True show ?thesis by (simp add: n')
        next
          case False
          with sa ap have sw: "stores w a = Some A" by (simp add: w')
          from wellFormedD [OF wf sw] have "a < nextAddr w" and okA: "prefixesOk w A" by simp_all
          with prefixesOk_transfer [OF okA n keep refl sameShape_refl] show ?thesis
            by (simp add: n')
        qed
      qed
    qed
  qed
qed

lemma getOrCreate_wellFormed:
  assumes wf: "wellFormed w" and g: "getOrCreate k lib p name w = Some (h, w')"
  shows "wellFormed w'"
proof -
  from g obtain P where st: "stores w p = Some P"
    by (cases k; cases "stores w p")
       (simp_all add: getOrCreate_def getOrCreateCounter_def getOrCreateGauge_def
          getOrCreateHistogram_def)
  have upd: "wellFormed w'"
    if "nextAddr w \<le> nextAddr w'" and "stores w' = (stores w)(p \<mapsto> setHandle k name c P)"
    for c
    using that wellFormed_step [OF wf st, of w'] prefixes_setHandle [of k name c P]
      sameShape_setHandle [of k name c P]
    by blast
  show ?thesis
  proof (cases "handles k P name")
    case (Some c)
    from getOrCreate_hit [OF st this] g wf show ?thesis by simp
  next
    case miss: None
    obtain err r' where
      r: "Register lib (registries w (registry P)) (nextAddr w) (newCollector k P name) = (err, r')"
      by (cases "Register lib (registries w (registry P)) (nextAddr w) (newCollector k P name)")
    show ?thesis
    proof (cases err)
      case None
      with r have "Register lib (registries w (registry P)) (nextAddr w)
          (newCollector k P name) = (None, r')"
        by simp
      from getOrCreate_registered [OF st miss this] g
      have "nextAddr w \<le> nextAddr w'"
        and "stores w' = (stores w)(p \<mapsto> setHandle k name (nextAddr w) P)"
        by auto
      then show ?thesis by (rule upd)
    next
      case (Some e)
      with r have re: "Register lib (registries w (registry P)) (nextAddr w)
          (newCollector k P name) = (Some e, r')"
        by simp
      show ?thesis
      proof (cases "adoptable lib k e")
        case True
        then obtain existing new where
          e: "e = AlreadyRegisteredError existing new" and impl: "Implements lib k existing"
          by (cases e) (auto simp: adoptable_def)
        from getOrCreate_adopt [OF st miss re [unfolded e] impl] g
        have "nextAddr w \<le> nextAddr w'"
          and "stores w' = (stores w)(p \<mapsto> setHandle k name existing P)"
          by auto
        then show ?thesis by (rule upd)
      next
        case False
        from getOrCreate_degrade [OF st miss re False] g
        have "nextAddr w \<le> nextAddr w'" and "stores w' = stores w" by auto
        then show ?thesis using wellFormed_step [OF wf st, of w'] by blast
      qed
    qed
  qed
qed

text \<open>
  What a call of \<open>WithPrefix\<close> on a store of a well-formed heap gives: the address of a
  store of the heap that is derived from the parent for the key, cached under the key
  in the parent, whose other keys and shape are as before; the address is the cached
  one, or the one that was free.
\<close>

lemma WithPrefix_result:
  assumes wf: "wellFormed w" and st: "stores w p = Some P"
  shows "\<exists>s w' P' S. WithPrefix p q w = Some (s, w') \<and> wellFormed w' \<and>
           stores w' p = Some P' \<and> sameShape P' P \<and>
           prefixes P' q = Some (Some s) \<and>
           (\<forall>q'. q' \<noteq> q \<longrightarrow> prefixes P' q' = prefixes P q') \<and>
           stores w' s = Some S \<and> derivedFrom P q S \<and>
           (prefixes P q = Some (Some s) \<or> s = nextAddr w \<and> nextAddr w < nextAddr w') \<and>
           nextAddr w \<le> nextAddr w'"
proof -
  have "\<exists>s w' P'. WithPrefix p q w = Some (s, w') \<and>
      stores w' p = Some P' \<and> sameShape P' P \<and> prefixes P' q = Some (Some s) \<and>
      (\<forall>q'. q' \<noteq> q \<longrightarrow> prefixes P' q' = prefixes P q') \<and>
      (prefixes P q = Some (Some s) \<or> s = nextAddr w \<and> nextAddr w < nextAddr w') \<and>
      nextAddr w \<le> nextAddr w'"
  proof (cases "\<exists>s. prefixes P q = Some (Some s)")
    case True
    then obtain s where s: "prefixes P q = Some (Some s)" by blast
    have "WithPrefix p q w = Some (s, w) \<and> stores w p = Some P \<and> sameShape P P \<and>
        prefixes P q = Some (Some s) \<and>
        (\<forall>q'. q' \<noteq> q \<longrightarrow> prefixes P q' = prefixes P q') \<and>
        (prefixes P q = Some (Some s) \<or> s = nextAddr w \<and> nextAddr w < nextAddr w) \<and>
        nextAddr w \<le> nextAddr w"
      using WithPrefix_hit [OF st s] st s by (simp add: sameShape_refl)
    then show ?thesis by blast
  next
    case False
    then have no: "\<forall>s. prefixes P q \<noteq> Some (Some s)" by simp
    let ?P' = "P\<lparr>prefixes := (prefixes P)(q \<mapsto> Some (nextAddr w))\<rparr>"
    let ?w' = "w\<lparr>stores := ((stores w)(nextAddr w \<mapsto>
             newPrometheus (if \<not> HasSuffix q ''.'' then q @ ''.'' else q)
               (namespace P) (subsystem P) (registry P) (buckets P)))
             (p \<mapsto> ?P'),
           nextAddr := nextAddr w + 1\<rparr>"
    have "WithPrefix p q w = Some (nextAddr w, ?w')"
      by (rule WithPrefix_new [OF st no])
    moreover have "stores ?w' p = Some ?P'" by simp
    moreover have "sameShape ?P' P" by (simp add: sameShape_def)
    moreover have "prefixes ?P' q = Some (Some (nextAddr w))" by simp
    moreover have "\<forall>q'. q' \<noteq> q \<longrightarrow> prefixes ?P' q' = prefixes P q'" by simp
    moreover have "nextAddr w < nextAddr ?w'" "nextAddr w \<le> nextAddr ?w'" by simp_all
    ultimately show ?thesis by blast
  qed
  then obtain s w' P' where
    c: "WithPrefix p q w = Some (s, w')" and sp: "stores w' p = Some P'" and
    sh: "sameShape P' P" and h: "prefixes P' q = Some (Some s)" and
    o: "\<forall>q'. q' \<noteq> q \<longrightarrow> prefixes P' q' = prefixes P q'" and
    f: "prefixes P q = Some (Some s) \<or> s = nextAddr w \<and> nextAddr w < nextAddr w'" and
    n: "nextAddr w \<le> nextAddr w'"
    by blast
  have wf': "wellFormed w'" by (rule WithPrefix_wellFormed [OF wf c])
  from wellFormedD [OF wf' sp] have "prefixesOk w' P'" by simp
  from prefixesOk_target [OF this h] obtain S where
    ss: "stores w' s = Some S" and d: "derivedFrom P' q S"
    by blast
  have "sameShape P P'" using sh by (simp add: sameShape_def)
  from derivedFrom_shape [OF d this sameShape_refl] have d': "derivedFrom P q S" .
  from c wf' sp sh h o ss d' f n show ?thesis by blast
qed

text \<open>
  C5. On a store of a well-formed heap, \<open>WithPrefix\<close> returns the address of a store
  of the heap, derived from the parent for the requested prefix (normalized prefix, the
  parent's namespace, subsystem, registry and buckets), and a second call with the same
  prefix returns the same address and leaves the world as it is. The cache is keyed by
  the string as requested: a call with any other string, made on the same parent
  afterwards, returns a different address, again of a store of the heap derived for
  that string, while the first store stays where it was; so for \<open>api\<close> and \<open>api.\<close>,
  two different stores with the one prefix \<open>api.\<close>.
\<close>

theorem WithPrefix_stable:
  assumes "wellFormed w" and "stores w p = Some P"
  shows "\<exists>s w1 S. WithPrefix p q w = Some (s, w1) \<and> wellFormed w1 \<and>
           stores w1 s = Some S \<and> derivedFrom P q S \<and>
           WithPrefix p q w1 = Some (s, w1) \<and>
           (\<forall>q'. q' \<noteq> q \<longrightarrow>
              (\<exists>s' w2 S' S2. WithPrefix p q' w1 = Some (s', w2) \<and> s' \<noteq> s \<and>
                 stores w2 s' = Some S' \<and> derivedFrom P q' S' \<and>
                 stores w2 s = Some S2 \<and> derivedFrom P q S2 \<and>
                 WithPrefix p q w2 = Some (s, w2)))"
proof -
  from WithPrefix_result [OF assms, of q] obtain s w1 P1 S where
    c1: "WithPrefix p q w = Some (s, w1)" and wf1: "wellFormed w1" and
    s1: "stores w1 p = Some P1" and sh1: "sameShape P1 P" and
    h1: "prefixes P1 q = Some (Some s)" and
    o1: "\<forall>q'. q' \<noteq> q \<longrightarrow> prefixes P1 q' = prefixes P q'" and
    ss: "stores w1 s = Some S" and d1: "derivedFrom P q S" and
    f1: "prefixes P q = Some (Some s) \<or> s = nextAddr w \<and> nextAddr w < nextAddr w1" and
    n1: "nextAddr w \<le> nextAddr w1"
    by blast
  have again: "WithPrefix p q w1 = Some (s, w1)"
    by (rule WithPrefix_hit [OF s1 h1])
  from wellFormedD [OF assms] have ok: "prefixesOk w P" by simp
  have lt: "s < nextAddr w1"
    using f1 prefixesOk_target [OF ok, of q s] n1 by auto
  have other: "\<exists>s' w2 S' S2. WithPrefix p q' w1 = Some (s', w2) \<and> s' \<noteq> s \<and>
      stores w2 s' = Some S' \<and> derivedFrom P q' S' \<and>
      stores w2 s = Some S2 \<and> derivedFrom P q S2 \<and> WithPrefix p q w2 = Some (s, w2)"
    if ne: "q' \<noteq> q" for q'
  proof -
    from WithPrefix_result [OF wf1 s1, of q'] obtain s' w2 P2 S' where
      c2: "WithPrefix p q' w1 = Some (s', w2)" and wf2: "wellFormed w2" and
      s2: "stores w2 p = Some P2" and sh2: "sameShape P2 P1" and
      o2: "\<forall>k. k \<noteq> q' \<longrightarrow> prefixes P2 k = prefixes P1 k" and
      ss': "stores w2 s' = Some S'" and d2: "derivedFrom P1 q' S'" and
      f2: "prefixes P1 q' = Some (Some s') \<or> s' = nextAddr w1 \<and> nextAddr w1 < nextAddr w2"
      by blast
    have neq: "s' \<noteq> s"
    proof
      assume eq: "s' = s"
      with f2 lt have "prefixes P1 q' = Some (Some s)" by auto
      with o1 ne have old: "prefixes P q' = Some (Some s)" by simp
      from f1 show False
      proof
        assume "prefixes P q = Some (Some s)"
        from prefixesOk_inj [OF ok this old] ne show False by simp
      next
        assume "s = nextAddr w \<and> nextAddr w < nextAddr w1"
        with prefixesOk_target [OF ok old] show False by simp
      qed
    qed
    have d2': "derivedFrom P q' S'"
      by (rule derivedFrom_shape [OF d2 _ sameShape_refl]) (use sh1 in \<open>simp add: sameShape_def\<close>)
    from o2 ne h1 have h2: "prefixes P2 q = Some (Some s)" by simp
    from wellFormedD [OF wf2 s2] have "prefixesOk w2 P2" by simp
    from prefixesOk_target [OF this h2] obtain S2 where
      s2s: "stores w2 s = Some S2" and d3: "derivedFrom P2 q S2"
      by blast
    have "sameShape P P2" using sh1 sh2 by (simp add: sameShape_def)
    from derivedFrom_shape [OF d3 this sameShape_refl] have d3': "derivedFrom P q S2" .
    have again2: "WithPrefix p q w2 = Some (s, w2)" by (rule WithPrefix_hit [OF s2 h2])
    from c2 neq ss' d2' s2s d3' again2 show ?thesis by blast
  qed
  from c1 wf1 ss d1 again other show ?thesis by blast
qed

lemma sampleWorld_wellFormed: "wellFormed sampleWorld"
  by (simp add: wellFormed_def sampleWorld_def prefixesOk_def newPrometheus_def)

theorem WithPrefix_stable_witness:
  "\<exists>s w1 S. WithPrefix 0 ''api'' sampleWorld = Some (s, w1) \<and>
     stores w1 s = Some S \<and> prefix S = ''api.'' \<and> registry S = 0 \<and>
     WithPrefix 0 ''api'' w1 = Some (s, w1) \<and>
     (\<exists>s' w2 S'. WithPrefix 0 ''api.'' w1 = Some (s', w2) \<and> s' \<noteq> s \<and>
        stores w2 s' = Some S' \<and> prefix S' = ''api.'' \<and> registry S' = 0 \<and>
        WithPrefix 0 ''api'' w2 = Some (s, w2))"
proof -
  let ?P = "newPrometheus ''test.'' '''' '''' 0 []"
  have n1: "normalizePrefix ''api'' = ''api.''" and n2: "normalizePrefix ''api.'' = ''api.''"
    by (simp_all add: normalizePrefix_def HasSuffix_def)
  have r: "registry ?P = 0" by (simp add: newPrometheus_def)
  from WithPrefix_stable [OF sampleWorld_wellFormed sampleWorld_store, of "''api''"]
  obtain s w1 S where
    a: "WithPrefix 0 ''api'' sampleWorld = Some (s, w1)" and
    b: "stores w1 s = Some S" and c: "derivedFrom ?P ''api'' S" and
    d: "WithPrefix 0 ''api'' w1 = Some (s, w1)" and
    e: "\<forall>q'. q' \<noteq> ''api'' \<longrightarrow>
          (\<exists>s' w2 S' S2. WithPrefix 0 q' w1 = Some (s', w2) \<and> s' \<noteq> s \<and>
             stores w2 s' = Some S' \<and> derivedFrom ?P q' S' \<and>
             stores w2 s = Some S2 \<and> derivedFrom ?P ''api'' S2 \<and>
             WithPrefix 0 ''api'' w2 = Some (s, w2))"
    by blast
  have ne: "''api.'' \<noteq> ''api''" by simp
  from e [rule_format, OF ne] obtain s' w2 S' where
    f: "WithPrefix 0 ''api.'' w1 = Some (s', w2)" and g: "s' \<noteq> s" and
    h: "stores w2 s' = Some S'" and i: "derivedFrom ?P ''api.'' S'" and
    j: "WithPrefix 0 ''api'' w2 = Some (s, w2)"
    by blast
  from c have c': "prefix S = ''api.''" "registry S = 0"
    by (simp_all add: derivedFrom_def n1 r)
  from i have i': "prefix S' = ''api.''" "registry S' = 0"
    by (simp_all add: derivedFrom_def n2 r)
  have two: "\<exists>s' w2 S'. WithPrefix 0 ''api.'' w1 = Some (s', w2) \<and> s' \<noteq> s \<and>
      stores w2 s' = Some S' \<and> prefix S' = ''api.'' \<and> registry S' = 0 \<and>
      WithPrefix 0 ''api'' w2 = Some (s, w2)"
    by (intro exI [of _ s'] exI [of _ w2] exI [of _ S'] conjI f g h i' j)
  show ?thesis
    by (intro exI [of _ s] exI [of _ w1] exI [of _ S] conjI a b c' d two)
qed

text \<open>The derived store for \<open>api\<close> has the prefix \<open>api.\<close>, and the counter \<open>requests\<close>
  on it gets the metric name \<open>api_requests\<close>.\<close>

lemma sample_WithPrefix_api:
  "WithPrefix 0 ''api'' sampleWorld =
     Some (8,
       sampleWorld
         \<lparr>stores := [0 \<mapsto> (newPrometheus ''test.'' '''' '''' 0 [])
                                \<lparr>prefixes := [''api'' \<mapsto> Some 8]\<rparr>,
                     8 \<mapsto> newPrometheus ''api.'' '''' '''' 0 []],
          nextAddr := 9\<rparr>)"
  "buildMetricName (newPrometheus ''api.'' '''' '''' 0 []) ''requests'' = ''api_requests''"
proof -
  have no: "\<forall>s. prefixes (newPrometheus ''test.'' '''' '''' 0 []) ''api'' \<noteq> Some (Some s)"
    by (simp add: newPrometheus_def)
  have n: "nextAddr sampleWorld = 8" by (simp add: sampleWorld_def)
  have sfx: "\<not> HasSuffix ''api'' ''.''" by (simp add: HasSuffix_def)
  from WithPrefix_new [OF sampleWorld_store no]
  show "WithPrefix 0 ''api'' sampleWorld =
     Some (8,
       sampleWorld
         \<lparr>stores := [0 \<mapsto> (newPrometheus ''test.'' '''' '''' 0 [])
                                \<lparr>prefixes := [''api'' \<mapsto> Some 8]\<rparr>,
                     8 \<mapsto> newPrometheus ''api.'' '''' '''' 0 []],
          nextAddr := 9\<rparr>)"
    unfolding n by (simp add: sfx) (simp add: sampleWorld_def newPrometheus_def fun_upd_twist)
  show "buildMetricName (newPrometheus ''api.'' '''' '''' 0 []) ''requests'' = ''api_requests''"
    by (simp add: buildMetricName_def newPrometheus_def sanitizeName_def replaceDots_def
        startsWithInvalid_def isNameChar_def isStartChar_def inRange_def byte_def)
qed
section \<open>Properties of the exposition server\<close>

lemma goroutineDone_frame:
  "nextAddr (goroutineDone s w) = nextAddr w"
  "currentServer (goroutineDone s w) = currentServer w"
  by (simp_all add: goroutineDone_def split: option.splits)

lemma runGoroutine_frame:
  "nextAddr (runGoroutine s w) = nextAddr w"
  "currentServer (runGoroutine s w) = currentServer w"
  by (simp_all add: runGoroutine_def goroutineDone_frame logInfo_def logError_def Let_def
      split: option.splits phase.splits)

lemma Shutdown_frame:
  "nextAddr (snd (Shutdown s w)) = nextAddr w"
  "currentServer (snd (Shutdown s w)) = currentServer w"
  by (simp_all add: Shutdown_def goroutineDone_frame Let_def split: option.splits)

lemma wgWait_frame:
  "nextAddr (wgWait s w) = nextAddr w"
  "currentServer (wgWait s w) = currentServer w"
  by (simp_all add: wgWait_def runGoroutine_frame)

lemma stop_returns:
  assumes "servers w s = Some S" and "\<not> stopChan S"
  shows "\<exists>err w1. stop s w = Return (err, w1) \<and> nextAddr w1 = nextAddr w \<and>
           currentServer w1 = currentServer w"
proof (cases "httpServer S")
  case None
  with assms show ?thesis by (simp add: stop_def)
next
  case (Some H)
  let ?w1 = "w\<lparr>servers := (servers w)(s \<mapsto> S\<lparr>stopChan := True\<rparr>)\<rparr>"
  obtain err w2 where sh: "Shutdown s ?w1 = (err, w2)" by (cases "Shutdown s ?w1")
  from Shutdown_frame [of s ?w1] sh
  have f: "nextAddr w2 = nextAddr w" "currentServer w2 = currentServer w" by simp_all
  show ?thesis
  proof (cases err)
    case None
    with assms Some sh have "stop s w = Return (None, wgWait s w2)" by (simp add: stop_def)
    with f show ?thesis by (simp add: wgWait_frame)
  next
    case (Some e)
    with assms \<open>httpServer S = Some H\<close> sh have "stop s w = Return (Some e, w2)"
      by (simp add: stop_def)
    with f show ?thesis by simp
  qed
qed

lemma start_returns:
  assumes "servers w s = Some (newServer prt pth reg)"
    and "accepts [] pth" and "accepts [(pth, MetricsHandler reg)] ''/health''"
  shows "start accepts s w =
    Return (None,
      w\<lparr>servers := (servers w)(s \<mapsto>
           \<lparr>httpServer = Some
              \<lparr>Addr = prt,
               Handler = [(pth, MetricsHandler reg), (''/health'', HealthHandler)],
               ReadTimeout = 5, WriteTimeout = 10, IdleTimeout = 15, inShutdown = False\<rparr>,
            port = prt, path = pth, serverRegistry = reg, stopChan = False, wg = 1\<rparr>),
        goroutines := (goroutines w)(s \<mapsto> Spawned)\<rparr>)"
  using assms by (simp add: start_def muxHandle_def newServer_def)

lemma startServer_after_stop:
  assumes "currentOk w"
  shows "\<exists>stopErr w1.
     (case currentServer w of None \<Rightarrow> Return (None, w) | Some cs \<Rightarrow> stop cs w) =
       Return (stopErr, w1) \<and> nextAddr w1 = nextAddr w"
proof (cases "currentServer w")
  case None
  then show ?thesis by simp
next
  case (Some cs)
  with assms obtain S where "servers w cs = Some S" "\<not> stopChan S"
    by (auto simp: currentOk_def split: option.splits)
  from stop_returns [OF this] Some show ?thesis by auto
qed

lemma runGoroutine_bind_failure:
  assumes "servers w s = Some S" and "goroutines w s = Some Spawned"
    and "httpServer S = Some H" and "\<not> inShutdown H" and "Addr H = port S"
    and "listenError w (port S) = Some err" and "err \<noteq> ErrServerClosed"
  shows "logs (runGoroutine s w) =
           logs w @
             [Entry LevelInfo (logger @ [AttrI ''port'' (port S), AttrS ''path'' (path S)])
                (Text ''starting HTTP server''),
              Entry LevelError (logger @ [AttrI ''port'' (port S)]) (Failure err)]"
    and "goroutines (runGoroutine s w) s = Some Finished"
  using assms
  by (simp_all add: runGoroutine_def goroutineDone_def logInfo_def logError_def Let_def)

text \<open>
  C1, as the code has it. Whenever the current server, if there is one, can be stopped
  and the multiplexer accepts the two patterns, \<open>startServer\<close> returns nil, whether or
  not the port can be bound: it makes the new server the current one and leaves its
  goroutine to be run. When that goroutine runs and the listen fails, the error goes to
  the log, after the entry that the server starts, and the failed server stays the
  current one.
\<close>

theorem startServer_returns_nil:
  assumes "currentOk w" and "accepts [] pth"
    and "accepts [(pth, MetricsHandler reg)] ''/health''"
  shows "\<exists>w'. startServer accepts prt pth reg w = Return (None, w') \<and>
           currentServer w' = Some (nextAddr w) \<and>
           servers w' (nextAddr w) =
             Some \<lparr>httpServer = Some
                     \<lparr>Addr = prt,
                      Handler = [(pth, MetricsHandler reg), (''/health'', HealthHandler)],
                      ReadTimeout = 5, WriteTimeout = 10, IdleTimeout = 15,
                      inShutdown = False\<rparr>,
                   port = prt, path = pth, serverRegistry = reg, stopChan = False, wg = 1\<rparr> \<and>
           goroutines w' (nextAddr w) = Some Spawned \<and>
           currentOk w' \<and>
           (\<forall>err. listenError w' prt = Some err \<and> err \<noteq> ErrServerClosed \<longrightarrow>
              logs (runGoroutine (nextAddr w) w') =
                logs w' @
                  [Entry LevelInfo (logger @ [AttrI ''port'' prt, AttrS ''path'' pth])
                     (Text ''starting HTTP server''),
                   Entry LevelError (logger @ [AttrI ''port'' prt]) (Failure err)] \<and>
              goroutines (runGoroutine (nextAddr w) w') (nextAddr w) = Some Finished \<and>
              currentServer (runGoroutine (nextAddr w) w') = Some (nextAddr w))"
proof -
  from startServer_after_stop [OF assms(1)] obtain stopErr w1 where
    st: "(case currentServer w of None \<Rightarrow> Return (None, w) | Some cs \<Rightarrow> stop cs w) =
           Return (stopErr, w1)" and
    n: "nextAddr w1 = nextAddr w"
    by blast
  let ?s = "nextAddr w"
  let ?w2 = "w1\<lparr>servers := (servers w1)(?s \<mapsto> newServer prt pth reg),
                nextAddr := nextAddr w1 + 1, currentServer := Some ?s\<rparr>"
  let ?H = "\<lparr>Addr = prt,
            Handler = [(pth, MetricsHandler reg), (''/health'', HealthHandler)],
            ReadTimeout = 5, WriteTimeout = 10, IdleTimeout = 15, inShutdown = False\<rparr>"
  let ?S = "\<lparr>httpServer = Some ?H,
            port = prt, path = pth, serverRegistry = reg, stopChan = False, wg = 1\<rparr>"
  let ?w' = "?w2\<lparr>servers := (servers ?w2)(?s \<mapsto> ?S),
                  goroutines := (goroutines ?w2)(?s \<mapsto> Spawned)\<rparr>"
  have s2: "servers ?w2 ?s = Some (newServer prt pth reg)" by simp
  have "startServer accepts prt pth reg w = start accepts ?s ?w2"
    by (simp add: startServer_def st n Let_def)
  also have "\<dots> = Return (None, ?w')"
    by (rule start_returns [OF s2 assms(2) assms(3)])
  finally have r: "startServer accepts prt pth reg w = Return (None, ?w')" .
  have cur: "currentServer ?w' = Some ?s" by simp
  have srv: "servers ?w' ?s = Some ?S" by simp
  have gor: "goroutines ?w' ?s = Some Spawned" by simp
  have ok: "currentOk ?w'" by (simp add: currentOk_def)
  have bg: "logs (runGoroutine ?s ?w') =
        logs ?w' @
          [Entry LevelInfo (logger @ [AttrI ''port'' prt, AttrS ''path'' pth])
             (Text ''starting HTTP server''),
           Entry LevelError (logger @ [AttrI ''port'' prt]) (Failure err)] \<and>
      goroutines (runGoroutine ?s ?w') ?s = Some Finished \<and>
      currentServer (runGoroutine ?s ?w') = Some ?s"
    if le: "listenError ?w' prt = Some err" and ne: "err \<noteq> ErrServerClosed" for err
  proof -
    have le': "listenError ?w' (port ?S) = Some err" using le by simp
    from runGoroutine_bind_failure [OF srv gor _ _ _ le' ne, of ?H]
    show ?thesis by (simp add: runGoroutine_frame)
  qed
  show ?thesis
    by (rule exI [of _ ?w']) (use r cur srv gor ok bg in blast)
qed

lemma sample_startServer:
  "startServer acceptsNew 2112 ''/metrics'' 0 sampleWorld = Return (None, startedWorld)"
  by (simp add: startServer_def start_def muxHandle_def newServer_def acceptsNew_def
      sampleWorld_def startedWorld_def Let_def)

lemma sample_currentOk: "currentOk sampleWorld"
  by (simp add: currentOk_def sampleWorld_def)

lemma sample_listenError:
  "listenError startedWorld 2112 =
     Some (ErrorString ''listen tcp :2112: bind: address already in use'')"
  by (simp add: startedWorld_def sampleWorld_def)

theorem startServer_returns_nil_witness:
  "startServer acceptsNew 2112 ''/metrics'' 0 sampleWorld = Return (None, startedWorld) \<and>
   currentServer startedWorld = Some 8 \<and>
   goroutines startedWorld 8 = Some Spawned \<and>
   logs (runGoroutine 8 startedWorld) =
     [Entry LevelInfo (logger @ [AttrI ''port'' 2112, AttrS ''path'' ''/metrics''])
        (Text ''starting HTTP server''),
      Entry LevelError (logger @ [AttrI ''port'' 2112])
        (Failure (ErrorString ''listen tcp :2112: bind: address already in use''))] \<and>
   goroutines (runGoroutine 8 startedWorld) 8 = Some Finished \<and>
   currentServer (runGoroutine 8 startedWorld) = Some 8"
proof -
  have a1: "acceptsNew [] ''/metrics''" by (simp add: acceptsNew_def)
  have a2: "acceptsNew [(''/metrics'', MetricsHandler 0)] ''/health''"
    by (simp add: acceptsNew_def)
  have n: "nextAddr sampleWorld = 8" by (simp add: sampleWorld_def)
  have l: "logs startedWorld = []" by (simp add: startedWorld_def sampleWorld_def)
  from startServer_returns_nil [OF sample_currentOk a1 a2, of 2112]
  obtain w' where
    r: "startServer acceptsNew 2112 ''/metrics'' 0 sampleWorld = Return (None, w')" and
    c: "currentServer w' = Some 8" and g: "goroutines w' 8 = Some Spawned" and
    b: "\<forall>err. listenError w' 2112 = Some err \<and> err \<noteq> ErrServerClosed \<longrightarrow>
          logs (runGoroutine 8 w') =
            logs w' @
              [Entry LevelInfo (logger @ [AttrI ''port'' 2112, AttrS ''path'' ''/metrics''])
                 (Text ''starting HTTP server''),
               Entry LevelError (logger @ [AttrI ''port'' 2112]) (Failure err)] \<and>
          goroutines (runGoroutine 8 w') 8 = Some Finished \<and>
          currentServer (runGoroutine 8 w') = Some 8"
    unfolding n by blast
  from r sample_startServer have w': "w' = startedWorld" by simp
  from b [rule_format, of "ErrorString ''listen tcp :2112: bind: address already in use''"]
    sample_listenError
  have "logs (runGoroutine 8 startedWorld) =
      logs startedWorld @
        [Entry LevelInfo (logger @ [AttrI ''port'' 2112, AttrS ''path'' ''/metrics''])
           (Text ''starting HTTP server''),
         Entry LevelError (logger @ [AttrI ''port'' 2112])
           (Failure (ErrorString ''listen tcp :2112: bind: address already in use''))] \<and>
      goroutines (runGoroutine 8 startedWorld) 8 = Some Finished \<and>
      currentServer (runGoroutine 8 startedWorld) = Some 8"
    unfolding w' by simp
  with r c g show ?thesis unfolding w' l by simp
qed

text \<open>
  C1, as the specification states it, fails where port 2112 is in use:
  \<open>startServer\<close> returns nil instead of the error of the listen, and the new server
  is the current one instead of none.
\<close>

theorem startServer_bind_failure_counterexample:
  "listenError sampleWorld 2112 =
     Some (ErrorString ''listen tcp :2112: bind: address already in use'') \<and>
   currentServer sampleWorld = None \<and>
   startServer acceptsNew 2112 ''/metrics'' 0 sampleWorld = Return (None, startedWorld) \<and>
   currentServer startedWorld = Some 8"
  using sample_startServer by (simp add: sampleWorld_def startedWorld_def)

lemma startServer_currentOk:
  assumes "currentOk w" and "startServer accepts prt pth reg w = Return (err, w')"
  shows "currentOk w'"
proof -
  from startServer_after_stop [OF assms(1)] obtain stopErr w1 where
    st: "(case currentServer w of None \<Rightarrow> Return (None, w) | Some cs \<Rightarrow> stop cs w) =
           Return (stopErr, w1)"
    by blast
  with assms(2) show ?thesis
    by (auto simp: startServer_def start_def muxHandle_def newServer_def currentOk_def Let_def
        split: if_splits)
qed

lemma stopServer_currentOk:
  "stopServer w = Return (err, w') \<Longrightarrow> currentOk w'"
  by (auto simp: stopServer_def currentOk_def split: option.splits result.splits)

lemma stopServer_absent:
  "currentServer w = None \<Longrightarrow> stopServer w = Return (None, w)"
  by (simp add: stopServer_def)

lemma startServer_current:
  assumes "currentOk w" and "accepts [] pth \<and> accepts [(pth, MetricsHandler reg)] ''/health''"
  shows "\<exists>w'. startServer accepts prt pth reg w = Return (None, w') \<and> currentServer w' \<noteq> None"
proof -
  from startServer_after_stop [OF assms(1)] obtain stopErr w1 where
    st: "(case currentServer w of None \<Rightarrow> Return (None, w) | Some cs \<Rightarrow> stop cs w) =
           Return (stopErr, w1)"
    by blast
  let ?w2 = "w1\<lparr>servers := (servers w1)(nextAddr w1 \<mapsto> newServer prt pth reg),
                nextAddr := nextAddr w1 + 1, currentServer := Some (nextAddr w1)\<rparr>"
  have s2: "servers ?w2 (nextAddr w1) = Some (newServer prt pth reg)" by simp
  have "startServer accepts prt pth reg w = start accepts (nextAddr w1) ?w2"
    by (simp add: startServer_def st Let_def)
  with start_returns [OF s2, of accepts] assms(2) show ?thesis by simp
qed
section \<open>Properties of Dial and MustDial\<close>

lemma start_no_error: "start accepts s w \<noteq> Return (Some e, w')"
  by (simp add: start_def muxHandle_def Let_def split: option.splits)

lemma startServer_no_error: "startServer accepts prt pth reg w \<noteq> Return (Some e, w')"
  by (simp add: startServer_def start_no_error Let_def split: result.splits prod.splits)

lemma Validate_result:
  "\<exists>opt w1. Validate env opt0 w = (None, opt, w1) \<and>
     o_path opt = (if o_path opt0 = '''' then DefaultMetricsPath else o_path opt0) \<and>
     o_registry opt = Some (case o_registry opt0 of None \<Rightarrow> nextAddr w | Some reg \<Rightarrow> reg) \<and>
     currentServer w1 = currentServer w \<and> servers w1 = servers w \<and>
     nextAddr w \<le> nextAddr w1"
  by (cases "o_registry opt0") (simp_all add: Validate_def Let_def)

lemma Dial_no_error: "Dial accepts env opts pr \<noteq> Return (Some e, pr')"
proof -
  from Validate_result [of env "dialOptions env opts" "global pr"] obtain opt w1 where
    v: "Validate env (dialOptions env opts) (global pr) = (None, opt, w1)"
    by blast
  show ?thesis
    by (simp add: Dial_def v Let_def startServer_no_error
        split: option.splits prod.splits result.splits)
qed

lemma Dial_frame:
  assumes "Dial accepts env opts pr = Return (err, pr')"
  shows "slept pr' = slept pr \<and> fatalLog pr' = fatalLog pr \<and> exited pr' = exited pr"
proof -
  from Validate_result [of env "dialOptions env opts" "global pr"] obtain opt w1 where
    v: "Validate env (dialOptions env opts) (global pr) = (None, opt, w1)"
    by blast
  from assms show ?thesis
    by (auto simp: Dial_def v Let_def split: option.splits prod.splits result.splits)
qed

text \<open>\<open>MustDial\<close> is one call of \<open>Dial\<close>: the branch of the loop for an error is never
  taken.\<close>

lemma MustDial_once:
  "MustDial accepts env opts pr =
     (case Dial accepts env opts pr of
        Panic msg \<Rightarrow> Panic msg
      | Return (err, pr1) \<Rightarrow> Return pr1)"
proof (cases "Dial accepts env opts pr")
  case (Panic msg)
  then show ?thesis by (simp add: MustDial_def)
next
  case (Return x)
  obtain err pr1 where x: "x = (err, pr1)" by (cases x)
  with Return Dial_no_error [of accepts env opts pr _ pr1] have "err = None"
    by (cases err) auto
  with Return x show ?thesis by (simp add: MustDial_def)
qed

text \<open>What \<open>Dial\<close> does, by whether the multiplexer accepts the two patterns.\<close>

lemma Dial_cases:
  assumes ok: "currentOk (global pr)"
  shows "(accepts [] (dialPath env opts) \<and>
          accepts [(dialPath env opts, MetricsHandler (dialRegistry env opts (global pr)))]
            ''/health'' \<longrightarrow>
            (\<exists>pr'. Dial accepts env opts pr = Return (None, pr') \<and>
               currentServer (global pr') \<noteq> None \<and> driver pr' \<noteq> None)) \<and>
         (\<not> (accepts [] (dialPath env opts) \<and>
             accepts [(dialPath env opts, MetricsHandler (dialRegistry env opts (global pr)))]
               ''/health'') \<longrightarrow>
            Dial accepts env opts pr = Panic ''http: invalid or conflicting pattern'')"
proof -
  let ?pth = "dialPath env opts" and ?reg = "dialRegistry env opts (global pr)"
  from Validate_result [of env "dialOptions env opts" "global pr"] obtain opt w1 where
    v: "Validate env (dialOptions env opts) (global pr) = (None, opt, w1)" and
    p: "o_path opt = ?pth" and r: "o_registry opt = Some ?reg" and
    c1: "currentServer w1 = currentServer (global pr)" and s1: "servers w1 = servers (global pr)"
    by (auto simp: dialPath_def dialRegistry_def)
  let ?w2 = "w1\<lparr>stores := (stores w1)(nextAddr w1 \<mapsto>
               newPrometheus '''' (o_namespace opt) (o_subsystem opt) ?reg
                 (case o_buckets opt of None \<Rightarrow> [] | Some bs \<Rightarrow> bs)),
             nextAddr := nextAddr w1 + 1\<rparr>"
  have "\<exists>m w3. WithPrefix (nextAddr w1) (o_prefix opt) ?w2 = Some (m, w3) \<and>
      currentServer w3 = currentServer w1 \<and> servers w3 = servers w1"
    by (simp add: WithPrefix_def newPrometheus_def Let_def)
  then obtain m w3 where
    wp: "WithPrefix (nextAddr w1) (o_prefix opt) ?w2 = Some (m, w3)" and
    c3: "currentServer w3 = currentServer w1" and s3: "servers w3 = servers w1"
    by blast
  have ok3: "currentOk w3" using ok unfolding currentOk_def c3 s3 c1 s1 .
  have d: "Dial accepts env opts pr =
      (case startServer accepts (o_port opt) ?pth ?reg w3 of
         Panic msg \<Rightarrow> Panic msg
       | Return (Some err, w4) \<Rightarrow>
           Return (Some err, pr\<lparr>global := logError logger err w4, driver := Some m\<rparr>)
       | Return (None, w4) \<Rightarrow>
           Return (None,
             pr\<lparr>global :=
                  logInfo (logger @
                    [AttrI ''port'' (o_port opt), AttrS ''path'' (o_path opt),
                     AttrS ''prefix'' (o_prefix opt)]) ''started'' w4,
                driver := Some m\<rparr>))"
    using wp by (simp add: Dial_def v r p [symmetric] Let_def)
  show ?thesis
  proof (intro conjI impI)
    assume a: "accepts [] ?pth \<and> accepts [(?pth, MetricsHandler ?reg)] ''/health''"
    from startServer_current [OF ok3, of accepts ?pth ?reg "o_port opt"] a
    obtain w4 where
      ss: "startServer accepts (o_port opt) ?pth ?reg w3 = Return (None, w4)" and
      cs: "currentServer w4 \<noteq> None"
      by auto
    from d ss cs
    show "\<exists>pr'. Dial accepts env opts pr = Return (None, pr') \<and>
        currentServer (global pr') \<noteq> None \<and> driver pr' \<noteq> None"
      by (simp add: logInfo_def)
  next
    assume a: "\<not> (accepts [] ?pth \<and> accepts [(?pth, MetricsHandler ?reg)] ''/health'')"
    from startServer_after_stop [OF ok3] obtain stopErr w3' where
      st: "(case currentServer w3 of None \<Rightarrow> Return (None, w3) | Some cs \<Rightarrow> stop cs w3) =
             Return (stopErr, w3')"
      by blast
    have "startServer accepts (o_port opt) ?pth ?reg w3 =
        Panic ''http: invalid or conflicting pattern''"
      using a by (auto simp: startServer_def st start_def muxHandle_def newServer_def Let_def)
    with d show "Dial accepts env opts pr = Panic ''http: invalid or conflicting pattern''"
      by simp
  qed
qed

lemma sample_process_ok: "currentOk (global sampleProcess)"
  by (simp add: sampleProcess_def currentOk_def sampleWorld_def)

lemma sample_dial_metrics:
  "dialPath sampleEnv [HTTPPort 2112, MetricPrefix ''test''] = ''/metrics''"
  "dialRegistry sampleEnv [HTTPPort 2112, MetricPrefix ''test''] (global sampleProcess) = 8"
  by (simp_all add: dialPath_def dialRegistry_def dialOptions_def HTTPPort_def MetricPrefix_def
      DefaultMetricsPath_def sampleProcess_def sampleWorld_def)

lemma sample_dial_health:
  "dialPath sampleEnv [MetricsPath ''/health''] = ''/health''"
  "dialRegistry sampleEnv [MetricsPath ''/health''] (global sampleProcess) = 8"
  by (simp_all add: dialPath_def dialRegistry_def dialOptions_def MetricsPath_def
      sampleProcess_def sampleWorld_def)

text \<open>
  C3, as the code has it. \<open>Dial\<close> returns no error: \<open>Validate\<close> and \<open>startServer\<close>
  return nil wherever they return. So \<open>MustDial\<close> is one call of \<open>Dial\<close>. When the
  multiplexer accepts the metrics path and \<open>/health\<close>, that call returns nil and
  \<open>MustDial\<close> returns with its result, the driver set and a server current, without a
  second of sleep and without a fatal log entry; the branch that retries and the call
  of \<open>log.Fatal\<close> are not reached. When the multiplexer refuses one of the two
  patterns, that first call panics, and so does \<open>MustDial\<close>: the process ends by the
  panic. The current server, if there is one, is taken not to have been stopped before.
\<close>

theorem MustDial_single_call:
  assumes "currentOk (global pr)"
  shows "(\<forall>e pr'. Dial accepts env opts pr \<noteq> Return (Some e, pr')) \<and>
         (accepts [] (dialPath env opts) \<and>
          accepts [(dialPath env opts, MetricsHandler (dialRegistry env opts (global pr)))]
            ''/health'' \<longrightarrow>
            (\<exists>pr'. Dial accepts env opts pr = Return (None, pr') \<and>
               MustDial accepts env opts pr = Return pr' \<and>
               slept pr' = slept pr \<and> fatalLog pr' = fatalLog pr \<and> exited pr' = exited pr \<and>
               currentServer (global pr') \<noteq> None \<and> driver pr' \<noteq> None)) \<and>
         (\<not> (accepts [] (dialPath env opts) \<and>
             accepts [(dialPath env opts, MetricsHandler (dialRegistry env opts (global pr)))]
               ''/health'') \<longrightarrow>
            Dial accepts env opts pr = Panic ''http: invalid or conflicting pattern'' \<and>
            MustDial accepts env opts pr = Panic ''http: invalid or conflicting pattern'')"
proof (intro conjI allI impI)
  fix e pr'
  show "Dial accepts env opts pr \<noteq> Return (Some e, pr')" by (rule Dial_no_error)
next
  assume a: "accepts [] (dialPath env opts) \<and>
      accepts [(dialPath env opts, MetricsHandler (dialRegistry env opts (global pr)))] ''/health''"
  with Dial_cases [OF assms, of accepts env opts] obtain pr' where
    d: "Dial accepts env opts pr = Return (None, pr')" and
    c: "currentServer (global pr') \<noteq> None" "driver pr' \<noteq> None"
    by blast
  have m: "MustDial accepts env opts pr = Return pr'" by (simp add: MustDial_once d)
  from Dial_frame [OF d] d m c
  show "\<exists>pr'. Dial accepts env opts pr = Return (None, pr') \<and>
      MustDial accepts env opts pr = Return pr' \<and>
      slept pr' = slept pr \<and> fatalLog pr' = fatalLog pr \<and> exited pr' = exited pr \<and>
      currentServer (global pr') \<noteq> None \<and> driver pr' \<noteq> None"
    by blast
next
  assume a: "\<not> (accepts [] (dialPath env opts) \<and>
      accepts [(dialPath env opts, MetricsHandler (dialRegistry env opts (global pr)))] ''/health'')"
  with Dial_cases [OF assms, of accepts env opts]
  have d: "Dial accepts env opts pr = Panic ''http: invalid or conflicting pattern''" by blast
  then show "Dial accepts env opts pr = Panic ''http: invalid or conflicting pattern''" .
  from d show "MustDial accepts env opts pr = Panic ''http: invalid or conflicting pattern''"
    by (simp add: MustDial_once)
qed

theorem MustDial_single_call_witness:
  "(\<exists>pr'. Dial acceptsNew sampleEnv [HTTPPort 2112, MetricPrefix ''test''] sampleProcess =
            Return (None, pr') \<and>
      MustDial acceptsNew sampleEnv [HTTPPort 2112, MetricPrefix ''test''] sampleProcess =
        Return pr' \<and>
      slept pr' = 0 \<and> fatalLog pr' = [] \<and> \<not> exited pr' \<and>
      currentServer (global pr') \<noteq> None \<and> driver pr' \<noteq> None) \<and>
   MustDial acceptsNew sampleEnv [MetricsPath ''/health''] sampleProcess =
     Panic ''http: invalid or conflicting pattern''"
proof -
  have a: "acceptsNew [] ''/metrics'' \<and> acceptsNew [(''/metrics'', MetricsHandler 8)] ''/health''"
    by (simp add: acceptsNew_def)
  have b: "\<not> (acceptsNew [] ''/health'' \<and> acceptsNew [(''/health'', MetricsHandler 8)] ''/health'')"
    by (simp add: acceptsNew_def)
  have f: "slept sampleProcess = 0" "fatalLog sampleProcess = []" "\<not> exited sampleProcess"
    by (simp_all add: sampleProcess_def)
  from MustDial_single_call [OF sample_process_ok, of acceptsNew sampleEnv
      "[HTTPPort 2112, MetricPrefix ''test'']"] a
  have one: "\<exists>pr'. Dial acceptsNew sampleEnv [HTTPPort 2112, MetricPrefix ''test''] sampleProcess =
        Return (None, pr') \<and>
      MustDial acceptsNew sampleEnv [HTTPPort 2112, MetricPrefix ''test''] sampleProcess =
        Return pr' \<and>
      slept pr' = 0 \<and> fatalLog pr' = [] \<and> \<not> exited pr' \<and>
      currentServer (global pr') \<noteq> None \<and> driver pr' \<noteq> None"
    by (simp add: sample_dial_metrics f)
  from MustDial_single_call [OF sample_process_ok, of acceptsNew sampleEnv
      "[MetricsPath ''/health'']"] b
  have two: "MustDial acceptsNew sampleEnv [MetricsPath ''/health''] sampleProcess =
      Panic ''http: invalid or conflicting pattern''"
    unfolding sample_dial_health by simp
  from one two show ?thesis by (rule conjI)
qed

text \<open>
  C3, as the specification states it, fails at \<open>MustDial(MetricsPath("/health"))\<close>:
  the process is terminated by the panic of the multiplexer in the first call of
  \<open>Dial\<close>, with no retry exhausted, not a second slept and no fatal log entry.
\<close>

theorem MustDial_panic_counterexample:
  "Dial acceptsNew sampleEnv [MetricsPath ''/health''] sampleProcess =
     Panic ''http: invalid or conflicting pattern'' \<and>
   MustDial acceptsNew sampleEnv [MetricsPath ''/health''] sampleProcess =
     Panic ''http: invalid or conflicting pattern'' \<and>
   slept sampleProcess = 0 \<and> fatalLog sampleProcess = [] \<and> \<not> exited sampleProcess"
proof -
  have b: "\<not> (acceptsNew [] ''/health'' \<and> acceptsNew [(''/health'', MetricsHandler 8)] ''/health'')"
    by (simp add: acceptsNew_def)
  from Dial_cases [OF sample_process_ok, of acceptsNew sampleEnv "[MetricsPath ''/health'']"] b
  have d: "Dial acceptsNew sampleEnv [MetricsPath ''/health''] sampleProcess =
      Panic ''http: invalid or conflicting pattern''"
    unfolding sample_dial_health by simp
  then have "MustDial acceptsNew sampleEnv [MetricsPath ''/health''] sampleProcess =
      Panic ''http: invalid or conflicting pattern''"
    by (simp add: MustDial_once)
  with d show ?thesis by (simp add: sampleProcess_def)
qed

end
